theory Spec2Isabelle
  imports Main "HOL-Library.Sublist" "HOL-Library.AList"
begin

section \<open>Python exceptions and integers\<close>

text \<open>
  The handlers of \<^verbatim>\<open>action.py\<close> and the entity views of \<^verbatim>\<open>entity.py\<close> are embedded as
  HOL functions. Text is \<^typ>\<open>string\<close>, each character read as the code point of the
  same number (0 to 255); on these Python's \<^verbatim>\<open>str.lower\<close>, \<^verbatim>\<open>str.rstrip\<close> and the regular
  expressions of \<^verbatim>\<open>say_unit\<close> are modelled in full. Every exception the embedded code can
  raise is a value of \<open>py_error\<close>; a computation that may raise returns \<open>py_error + 'a\<close>.
\<close>

datatype py_error =
    KeyError | IndexError | ValueError | TypeError | OverflowError
  | AttributeError | CalledProcessError

text \<open>Subscripting a list, \<^verbatim>\<open>xs[i]\<close>: a negative index counts from the end.\<close>

definition subscript :: "'a list \<Rightarrow> int \<Rightarrow> py_error + 'a" where
  "subscript xs i =
     (if 0 \<le> i \<and> i < int (length xs) then Inr (xs ! nat i)
      else if i < 0 \<and> - int (length xs) \<le> i then Inr (xs ! nat (int (length xs) + i))
      else Inl IndexError)"

text \<open>\<^verbatim>\<open>str(n)\<close> and the \<^verbatim>\<open>%d\<close>/\<^verbatim>\<open>%s\<close> conversions of an integer.\<close>

fun str_nat :: "nat \<Rightarrow> string" where
  "str_nat n =
     (if n < 10 then [''0123456789'' ! n]
      else str_nat (n div 10) @ [''0123456789'' ! (n mod 10)])"

declare str_nat.simps [simp del]

definition str_int :: "int \<Rightarrow> string" where
  "str_int i = (if i < 0 then CHR ''-'' # str_nat (nat (- i)) else str_nat (nat i))"

section \<open>Text primitives\<close>

definition is_digit :: "char \<Rightarrow> bool" where
  "is_digit c = (c \<in> set ''0123456789'')"

text \<open>The whitespace that \<^verbatim>\<open>bytes.strip()\<close> removes.\<close>

definition bytes_space :: "char \<Rightarrow> bool" where
  "bytes_space c = (c \<in> set [CHR '' '', CHR 0x09, CHR 0x0A, CHR 0x0B, CHR 0x0C, CHR 0x0D])"

definition strip :: "string \<Rightarrow> string" where
  "strip s = rev (dropWhile bytes_space (rev (dropWhile bytes_space s)))"

text \<open>
  \<^verbatim>\<open>int(s)\<close> in base 10: surrounding whitespace, an optional sign, then digits, where
  single underscores may stand between digits. Anything else raises \<^verbatim>\<open>ValueError\<close>.
\<close>

fun digits_ok :: "string \<Rightarrow> bool" where
  "digits_ok [] = False"
| "digits_ok [c] = is_digit c"
| "digits_ok (c # d # r) =
     (is_digit c \<and> (if d = CHR ''_'' then digits_ok r else digits_ok (d # r)))"

definition digit_val :: "char \<Rightarrow> nat" where
  "digit_val c = of_char c - 48"

definition digits_value :: "string \<Rightarrow> nat" where
  "digits_value s = foldl (\<lambda>a c. 10 * a + digit_val c) 0 s"

definition py_int :: "string \<Rightarrow> py_error + int" where
  "py_int s =
     (let t = strip s;
          neg = (case t of c # _ \<Rightarrow> c = CHR ''-'' | [] \<Rightarrow> False);
          body = (case t of c # r \<Rightarrow> if c = CHR ''-'' \<or> c = CHR ''+'' then r else t | [] \<Rightarrow> t)
      in if digits_ok body
         then Inr ((if neg then - 1 else 1) * int (digits_value (filter is_digit body)))
         else Inl ValueError)"

text \<open>
  \<^verbatim>\<open>fmt % v\<close> for a format with one \<^verbatim>\<open>%d\<close> and any number of \<^verbatim>\<open>%%\<close>, the only
  conversions the formats of \<^verbatim>\<open>VolumeControl\<close> use.
\<close>

fun format_d :: "string \<Rightarrow> int \<Rightarrow> string" where
  "format_d [] v = []"
| "format_d [c] v = [c]"
| "format_d (c # d # r) v =
     (if c = CHR ''%'' \<and> d = CHR ''d'' then str_int v @ format_d r v
      else if c = CHR ''%'' \<and> d = CHR ''%'' then CHR ''%'' # format_d r v
      else c # format_d (d # r) v)"

text \<open>
  \<^verbatim>\<open>str.lower()\<close>: among the code points below 256 the capitals are A..Z (65 to 90)
  and the accented capitals 192 to 222 without the multiplication sign 215; each has its
  small letter 32 places further on, and every other character stays.
\<close>

definition lower_char :: "char \<Rightarrow> char" where
  "lower_char c =
     (let n = of_char c :: nat
      in if (65 \<le> n \<and> n \<le> 90) \<or> (192 \<le> n \<and> n \<le> 222 \<and> n \<noteq> 215)
         then char_of (n + 32) else c)"

definition lower :: "string \<Rightarrow> string" where
  "lower s = map lower_char s"

text \<open>\<^verbatim>\<open>p in s\<close> for two strings: \<open>p\<close> occurs in \<open>s\<close> as a contiguous run.\<close>

fun py_in :: "string \<Rightarrow> string \<Rightarrow> bool" where
  "py_in p [] = (p = [])"
| "py_in p (c # cs) = (prefix p (c # cs) \<or> py_in p cs)"

text \<open>
  \<^verbatim>\<open>s.replace(old, new)\<close>: every occurrence of \<open>old\<close>, found from the left and not
  overlapping, is replaced. \<open>replace_from\<close> carries the number of characters of a
  match still to be skipped.
\<close>

fun replace_from :: "string \<Rightarrow> string \<Rightarrow> nat \<Rightarrow> string \<Rightarrow> string" where
  "replace_from old new n [] = []"
| "replace_from old new (Suc n) (c # cs) = replace_from old new n cs"
| "replace_from old new 0 (c # cs) =
     (if prefix old (c # cs) then new @ replace_from old new (length old - 1) cs
      else c # replace_from old new 0 cs)"

definition replace :: "string \<Rightarrow> string \<Rightarrow> string \<Rightarrow> string" where
  "replace s old new =
     (if old = [] then new @ concat (map (\<lambda>c. c # new) s)
      else replace_from old new 0 s)"

text \<open>
  The whitespace that \<^verbatim>\<open>str.rstrip()\<close> removes: the characters below 256 for which
  \<^verbatim>\<open>str.isspace\<close> holds.
\<close>

definition str_space :: "char \<Rightarrow> bool" where
  "str_space c =
     (c \<in> set [CHR '' '', CHR 0x09, CHR 0x0A, CHR 0x0B, CHR 0x0C, CHR 0x0D,
                CHR 0x1C, CHR 0x1D, CHR 0x1E, CHR 0x1F, CHR 0x85, CHR 0xA0])"

definition rstrip :: "string \<Rightarrow> string" where
  "rstrip s = rev (dropWhile str_space (rev s))"

text \<open>
  \<^verbatim>\<open>random.choice(xs)\<close>: the random draw is the argument \<open>r\<close>, so a statement for all
  \<open>r\<close> covers every outcome. An empty sequence raises \<^verbatim>\<open>IndexError\<close>.
\<close>

definition choice :: "'a list \<Rightarrow> nat \<Rightarrow> py_error + 'a" where
  "choice xs r = (if xs = [] then Inl IndexError else Inr (xs ! (r mod length xs)))"

section \<open>SpeakTime\<close>

text \<open>The two fields of \<^verbatim>\<open>datetime.datetime\<close> that \<^verbatim>\<open>to_str\<close> reads.\<close>

record datetime =
  dt_hour :: int
  dt_minute :: int

definition HRS_TEXT :: "string list" where
  "HRS_TEXT = [''midnight'', ''one'', ''two'', ''three'', ''four'', ''five'', ''six'',
               ''seven'', ''eight'', ''nine'', ''ten'', ''eleven'', ''twelve'']"

definition MINS_TEXT :: "string list" where
  "MINS_TEXT = [''five'', ''ten'', ''quarter'', ''twenty'', ''twenty-five'', ''half'']"

text \<open>
  \<^verbatim>\<open>SpeakTime.to_str\<close>. The two table reads are Python subscripts and can raise
  \<^verbatim>\<open>IndexError\<close>; the model keeps that branch.
\<close>

definition to_str :: "datetime \<Rightarrow> py_error + string" where
  "to_str dt =
     (let hour = dt_hour dt;
          minute = dt_minute dt;
          minute_rounded = (minute + 2) div 5;
          minute_is_inverted = (minute_rounded > 6);
          minute_rounded = (if minute_is_inverted then 12 - minute_rounded else minute_rounded);
          hour = (if minute_is_inverted then (hour + 1) mod 24 else hour);
          hour = (if hour > 12 then hour - 12 else hour)
      in if minute_rounded = 0 then
           (if hour = 0 then Inr ''It is midnight.''
            else case subscript HRS_TEXT hour of
                   Inl e \<Rightarrow> Inl e
                 | Inr h \<Rightarrow> Inr (''It is '' @ h @ '' o'clock.''))
         else
           (case subscript MINS_TEXT (minute_rounded - 1) of
              Inl e \<Rightarrow> Inl e
            | Inr m \<Rightarrow>
               (case subscript HRS_TEXT hour of
                  Inl e \<Rightarrow> Inl e
                | Inr h \<Rightarrow>
                    if minute_is_inverted then Inr (''It is '' @ m @ '' to '' @ h @ ''.'')
                    else Inr (''It is '' @ m @ '' past '' @ h @ ''.''))))"

text \<open>
  The clock phrase as the specification words it: the minute rounded to five-minute
  increments, inverted to the next hour above six increments, the hour reduced to the
  12-hour form, and the words read from the two tables.
\<close>

definition clock_phrase :: "int \<Rightarrow> int \<Rightarrow> string" where
  "clock_phrase h m =
     (let inc = (m + 2) div 5;
          to_next = (inc > 6);
          inc' = (if to_next then 12 - inc else inc);
          h' = (if to_next then (h + 1) mod 24 else h);
          h12 = (if h' > 12 then h' - 12 else h')
      in if inc' = 0 then
           (if h12 = 0 then ''It is midnight.''
            else ''It is '' @ HRS_TEXT ! nat h12 @ '' o'clock.'')
         else if to_next then
           ''It is '' @ MINS_TEXT ! nat (inc' - 1) @ '' to '' @ HRS_TEXT ! nat h12 @ ''.''
         else
           ''It is '' @ MINS_TEXT ! nat (inc' - 1) @ '' past '' @ HRS_TEXT ! nat h12 @ ''.'')"

text \<open>Every sentence of the form "It is <minute-word> to <hour-word>.".\<close>

definition to_phrasing :: "string list" where
  "to_phrasing =
     concat (map (\<lambda>m. map (\<lambda>h. ''It is '' @ m @ '' to '' @ h @ ''.'') HRS_TEXT) MINS_TEXT)"

text \<open>What is said on the full hour \<open>h\<close> (0..23).\<close>

definition on_the_hour :: "int \<Rightarrow> string" where
  "on_the_hour h =
     (if h = 0 then ''It is midnight.''
      else ''It is '' @ HRS_TEXT ! nat (if h > 12 then h - 12 else h) @ '' o'clock.'')"

section \<open>Values of the entity document\<close>

text \<open>
  The values a YAML document of units and tenants holds: null, strings, integers, lists
  and mappings. A mapping keeps its keys in order, as a Python \<^verbatim>\<open>dict\<close> does.
\<close>

datatype pyval =
    PNone
  | PStr string
  | PInt int
  | PList "pyval list"
  | PDict "(string \<times> pyval) list"

type_synonym pydict = "(string \<times> pyval) list"

text \<open>Truth value of a Python object, as \<^verbatim>\<open>if x:\<close> tests it.\<close>

definition truthy :: "pyval \<Rightarrow> bool" where
  "truthy v =
     (case v of
        PNone \<Rightarrow> False
      | PStr s \<Rightarrow> s \<noteq> []
      | PInt i \<Rightarrow> i \<noteq> 0
      | PList xs \<Rightarrow> xs \<noteq> []
      | PDict kv \<Rightarrow> kv \<noteq> [])"

text \<open>\<^verbatim>\<open>d[k]\<close> with a string key: \<^verbatim>\<open>KeyError\<close> on a mapping without the key,
  \<^verbatim>\<open>TypeError\<close> on anything that is not a mapping.\<close>

definition getitem :: "pyval \<Rightarrow> string \<Rightarrow> py_error + pyval" where
  "getitem d k =
     (case d of
        PDict kv \<Rightarrow> (case map_of kv k of None \<Rightarrow> Inl KeyError | Some v \<Rightarrow> Inr v)
      | _ \<Rightarrow> Inl TypeError)"

text \<open>The entity document: identifiers mapped to unit records and to tenant records.\<close>

record document =
  doc_units :: "(string \<times> pydict) list"
  doc_tenants :: "(string \<times> pydict) list"

section \<open>Observable effects\<close>

text \<open>
  What a handler does to the outside world, in the order it does it: shell commands it
  runs, sentences it passes to the injected \<^verbatim>\<open>say\<close> callback, log records, writes and
  reads of the entity document, and text messages sent.
\<close>

datatype event =
    Shell string
  | Said string
  | LogInfo string string
  | LogException string
  | WroteFile document
  | ReadFile
  | Texted pyval pyval

section \<open>VolumeControl\<close>

definition GET_VOLUME :: string where
  \<open>GET_VOLUME =
     ''amixer get Master | grep "Front Left:" | sed "s/.*'' @ [CHR 0x5C] @ ''['' @ [CHR 0x5C]
       @ ''([0-9]'' @ [CHR 0x5C] @ ''+'' @ [CHR 0x5C] @ '')%'' @ [CHR 0x5C] @ ''].*/''
       @ [CHR 0x5C] @ ''1/"''\<close>

definition SET_VOLUME :: string where
  "SET_VOLUME = ''amixer -q set Master %d%%''"

text \<open>
  The operating system as \<^verbatim>\<open>VolumeControl.run\<close> meets it: \<^verbatim>\<open>subprocess.check_output\<close>
  returns the command's output or raises \<^verbatim>\<open>CalledProcessError\<close> on a non-zero exit
  status; \<^verbatim>\<open>subprocess.call\<close> returns the exit status and does not raise on it.
\<close>

record shell_env =
  check_output :: "string \<Rightarrow> py_error + string"
  call :: "string \<Rightarrow> int"

text \<open>
  Modelled from the spec: the translation function \<^verbatim>\<open>_\<close> is installed by the i18n module,
  which is not among the sources; the spec gives the spoken sentences untranslated.
\<close>

definition gettext :: "string \<Rightarrow> string" where
  "gettext msg = msg"

text \<open>The body of the \<^verbatim>\<open>try\<close> block: the events it causes and the exception, if any.\<close>

definition volume_try_body :: "int \<Rightarrow> shell_env \<Rightarrow> string \<Rightarrow> event list \<times> py_error option" where
  "volume_try_body change env res =
     (let log = [LogInfo ''volume: %s'' res] in
      case py_int res of
        Inl e \<Rightarrow> (log, Some e)
      | Inr v \<Rightarrow>
          (let vol = v + change;
               vol = max 0 (min 100 vol);
               status = call env (format_d SET_VOLUME vol)
           in (log @ [Shell (format_d SET_VOLUME vol),
                      Said (format_d (gettext ''Volume at %d %%.'') vol)], None)))"

text \<open>
  \<^verbatim>\<open>VolumeControl.run\<close>. The volume query stands before the \<^verbatim>\<open>try\<close>; the handler
  catches \<^verbatim>\<open>ValueError\<close> and \<^verbatim>\<open>CalledProcessError\<close> raised by the body only.
\<close>

definition VolumeControl_run :: "int \<Rightarrow> shell_env \<Rightarrow> event list \<times> py_error option" where
  "VolumeControl_run change env =
     (case check_output env GET_VOLUME of
        Inl e \<Rightarrow> ([Shell GET_VOLUME], Some e)
      | Inr out \<Rightarrow>
          (let res = strip out;
               (tr, exc) = volume_try_body change env res
           in case exc of
                None \<Rightarrow> (Shell GET_VOLUME # tr, None)
              | Some e \<Rightarrow>
                  if e = ValueError \<or> e = CalledProcessError
                  then (Shell GET_VOLUME # tr
                          @ [Said (gettext ''Sorry, I couldn't do that''),
                             LogException ''Error using amixer to adjust volume.''], None)
                  else (Shell GET_VOLUME # tr, Some e)))"

text \<open>The trace of a successful volume change to \<open>vol\<close>.\<close>

definition volume_ok_trace :: "string \<Rightarrow> int \<Rightarrow> event list" where
  "volume_ok_trace res vol =
     [Shell GET_VOLUME, LogInfo ''volume: %s'' res,
      Shell (''amixer -q set Master '' @ str_int vol @ ''%''),
      Said (''Volume at '' @ str_int vol @ '' %.'')]"

text \<open>A shell in which every query gives the same answer and every call exits with 0.\<close>

definition shell_answers :: "(py_error + string) \<Rightarrow> shell_env" where
  "shell_answers r = \<lparr>check_output = (\<lambda>cmd. r), call = (\<lambda>cmd. 0)\<rparr>"

section \<open>Paging exceptions\<close>

text \<open>\<^verbatim>\<open>Entity.paging_exception\<close>: the sub-record when the key is present, else \<^verbatim>\<open>None\<close>.\<close>

definition Entity_paging_exception :: "pydict \<Rightarrow> pyval option" where
  "Entity_paging_exception data = map_of data ''paging_exception''"

text \<open>\<^verbatim>\<open>PagingException.message\<close>, over the sub-record the exception wraps.\<close>

definition PagingException_message :: "pyval \<Rightarrow> py_error + pyval list" where
  "PagingException_message data =
     (case getitem data ''message'' of
        Inl e \<Rightarrow> Inl e
      | Inr msg \<Rightarrow> (case msg of PList xs \<Rightarrow> Inr xs | _ \<Rightarrow> Inr [msg]))"

definition PageUnit_responses :: "string list" where
  "PageUnit_responses =
     [''please wait. paging unit $unit'',
      ''ok. paging unit $unit'',
      ''hang on while i page unit $unit'',
      ''you got it. paging unit $unit'']"

definition PageTenant_responses :: "string list" where
  "PageTenant_responses =
     [''ok, paging $tenant'',
      ''ok, please stand by while i page $tenant'',
      ''sure, please wait while i page $tenant'',
      ''paging $tenant, please stand by'',
      ''ok, hang on while i page $tenant'']"

text \<open>
  \<^verbatim>\<open>PageUnit.__init__\<close> and \<^verbatim>\<open>PageTenant.__init__\<close>: the response templates the handler
  keeps. A \<^verbatim>\<open>PagingException\<close> object is always true, so the override applies whenever
  the key is present.
\<close>

definition PageUnit_init :: "pydict \<Rightarrow> py_error + pyval list" where
  "PageUnit_init unit =
     (case Entity_paging_exception unit of
        None \<Rightarrow> Inr (map PStr PageUnit_responses)
      | Some pe \<Rightarrow> PagingException_message pe)"

definition PageTenant_init :: "pydict \<Rightarrow> py_error + pyval list" where
  "PageTenant_init tenant =
     (case Entity_paging_exception tenant of
        None \<Rightarrow> Inr (map PStr PageTenant_responses)
      | Some pe \<Rightarrow> PagingException_message pe)"

text \<open>A unit record whose paging exception carries a scalar message.\<close>

definition example_unit :: pydict where
  "example_unit =
     [(''synonyms'', PList [PStr ''453A'']), (''floor'', PInt 4),
      (''paging_exception'', PDict [(''message'', PStr ''unit $unit is vacant'')])]"

section \<open>Entity store and tenant view\<close>

text \<open>
  Records are Python dictionaries, shared by reference: the heap lists the dictionaries
  built so far, and a reference is a position in it. The \<^verbatim>\<open>Entities\<close> object maps
  identifiers to references; an entity view (\<^verbatim>\<open>Tenant\<close>, \<^verbatim>\<open>Unit\<close>) holds the reference
  it was built from, which is always one the heap has.
\<close>

record entities =
  units :: "(string \<times> nat) list"
  tenants :: "(string \<times> nat) list"

text \<open>
  The state the handlers act on: the heap, the module variable \<^verbatim>\<open>global_entities\<close>
  (\<^verbatim>\<open>None\<close> until an \<^verbatim>\<open>Entities\<close> object is constructed), the entity document on disk,
  the word list loaded by class \<^verbatim>\<open>Password\<close>, and the events so far.
\<close>

record world =
  heap :: "pydict list"
  global_entities :: "entities option"
  data_file :: document
  word_list :: "string list"
  trace :: "event list"

text \<open>
  \<^verbatim>\<open>yaml.load\<close> builds a new dictionary for every record of the document;
  \<^verbatim>\<open>yaml.dump\<close> writes the dictionaries the mappings refer to. The document format is
  taken as lossless on these values, and reading and writing the file as succeeding.
  The process has one \<^verbatim>\<open>Entities\<close> object, the one \<^verbatim>\<open>global_entities\<close> names:
  \<^verbatim>\<open>import_data\<close> assigns its two mappings, and \<^verbatim>\<open>serialize_data\<close> and
  \<^verbatim>\<open>synch_data\<close> are called on it.
\<close>

definition load_records :: "(string \<times> pydict) list \<Rightarrow> pydict list \<Rightarrow> (string \<times> nat) list \<times> pydict list" where
  "load_records recs h =
     (zip (map fst recs) [length h ..< length h + length recs], h @ map snd recs)"

definition dump_records :: "pydict list \<Rightarrow> (string \<times> nat) list \<Rightarrow> (string \<times> pydict) list" where
  "dump_records h m = map (\<lambda>(k, a). (k, h ! a)) m"

definition import_data :: "world \<Rightarrow> world" where
  "import_data w =
     (let (us, h1) = load_records (doc_units (data_file w)) (heap w);
          (ts, h2) = load_records (doc_tenants (data_file w)) h1
      in w\<lparr>heap := h2, global_entities := Some \<lparr>units = us, tenants = ts\<rparr>,
           trace := trace w @ [ReadFile]\<rparr>)"

definition serialize_data :: "entities \<Rightarrow> world \<Rightarrow> world" where
  "serialize_data self w =
     (let data = \<lparr>doc_units = dump_records (heap w) (units self),
                  doc_tenants = dump_records (heap w) (tenants self)\<rparr>
      in w\<lparr>data_file := data, trace := trace w @ [WroteFile data]\<rparr>)"

definition synch_data :: "entities \<Rightarrow> world \<Rightarrow> world" where
  "synch_data self w = import_data (serialize_data self w)"

text \<open>\<^verbatim>\<open>Entities.__init__\<close> on a fresh process: the document is loaded.\<close>

definition Entities_init :: "document \<Rightarrow> string list \<Rightarrow> world" where
  "Entities_init file ws =
     import_data \<lparr>heap = [], global_entities = None, data_file = file, word_list = ws,
                  trace = []\<rparr>"

definition default_password :: string where
  "default_password = ''asdfqlwevnwaevnwlvjwekfnsedhsadhfwe''"

text \<open>\<^verbatim>\<open>x[0]\<close> on a value of the document.\<close>

definition first_item :: "pyval \<Rightarrow> py_error + pyval" where
  "first_item v =
     (case v of
        PList xs \<Rightarrow> (case xs of [] \<Rightarrow> Inl IndexError | x # _ \<Rightarrow> Inr x)
      | PStr s \<Rightarrow> (case s of [] \<Rightarrow> Inl IndexError | c # _ \<Rightarrow> Inr (PStr [c]))
      | PDict kv \<Rightarrow> Inl KeyError
      | _ \<Rightarrow> Inl TypeError)"

definition Tenant_name :: "pydict \<Rightarrow> py_error + pyval" where
  "Tenant_name data =
     (case getitem (PDict data) ''synonyms'' of
        Inl e \<Rightarrow> Inl e
      | Inr syn \<Rightarrow> first_item syn)"

definition Tenant_phone_no :: "pydict \<Rightarrow> pyval" where
  "Tenant_phone_no data =
     (case map_of data ''phone_no'' of Some v \<Rightarrow> v | None \<Rightarrow> PStr '''')"

text \<open>The getter of \<^verbatim>\<open>Tenant.password\<close>.\<close>

definition Tenant_password :: "pydict \<Rightarrow> pyval" where
  "Tenant_password data =
     (case map_of data ''password'' of
        Some v \<Rightarrow> if truthy v then v else PStr default_password
      | None \<Rightarrow> PStr default_password)"

text \<open>
  The setter of \<^verbatim>\<open>Tenant.password\<close>, for the view holding reference \<open>self\<close>: the
  dictionary the view refers to is updated in place, then the global store is written
  and read back.
\<close>

definition Tenant_set_password :: "nat \<Rightarrow> pyval \<Rightarrow> world \<Rightarrow> world \<times> py_error option" where
  "Tenant_set_password self v w =
     (let w1 = w\<lparr>heap := (heap w)[self := AList.update ''password'' v (heap w ! self)]\<rparr>
      in case global_entities w1 of
           None \<Rightarrow> (w1, Some AttributeError)
         | Some ge \<Rightarrow> (synch_data ge w1, None))"

section \<open>Password rotation and GainEntry\<close>

text \<open>
  \<^verbatim>\<open>Password.new_word\<close> for the tenant view \<open>tenant\<close>; \<open>r\<close> is the random draw. The
  messenger is taken to deliver: its only trace is the message handed over.
\<close>

definition new_word :: "nat \<Rightarrow> nat \<Rightarrow> world \<Rightarrow> world \<times> (py_error + pyval)" where
  "new_word tenant r w =
     (case choice (word_list w) r of
        Inl e \<Rightarrow> (w, Inl e)
      | Inr line \<Rightarrow>
          (case Tenant_set_password tenant (PStr (rstrip line)) w of
             (w1, Some e) \<Rightarrow> (w1, Inl e)
           | (w1, None) \<Rightarrow>
               (let w2 = w1\<lparr>trace := trace w1 @
                             [Texted (Tenant_phone_no (heap w1 ! tenant))
                                     (Tenant_password (heap w1 ! tenant))]\<rparr>
                in (w2, Inr (Tenant_password (heap w2 ! tenant))))))"

definition pass_responses :: "string list" where
  "pass_responses =
     [''hello, $tenant, have a wonderful day'',
      ''good day, $tenant, nice to see you'',
      ''howdy, $tenant!  another lovely day in the city'']"

definition fail_responses :: "string list" where
  "fail_responses =
     [''sorry, i could not let you in'',
      ''authorization has been denied.  please try again'',
      ''please check your password, it didn't match'',
      ''try spelling it out slowly next time'']"

definition token :: string where
  "token = ''$tenant''"

text \<open>
  The first half of \<^verbatim>\<open>GainEntry.run\<close>: the password check and the response before the
  placeholder is substituted. A password that is not a string makes \<^verbatim>\<open>in\<close> raise
  \<^verbatim>\<open>TypeError\<close>.
\<close>

definition GainEntry_response :: "pyval \<Rightarrow> string \<Rightarrow> nat \<Rightarrow> py_error + (bool \<times> string)" where
  "GainEntry_response password voice_command r =
     (case password of
        PStr pw \<Rightarrow>
          if py_in pw (lower voice_command) then
            (case choice pass_responses r of
               Inl e \<Rightarrow> Inl e
             | Inr c \<Rightarrow> Inr (True, ''that is the correct password: '' @ pw @ ''. '' @ c))
          else
            (case choice fail_responses r of
               Inl e \<Rightarrow> Inl e
             | Inr c \<Rightarrow> Inr (False, ''i didn't recognize the password. '' @ c))
      | _ \<Rightarrow> Inl TypeError)"

text \<open>
  \<^verbatim>\<open>GainEntry.run\<close> for the handler whose tenant view holds reference \<open>tenant\<close>;
  \<open>r1\<close> and \<open>r2\<close> are the random draws for the response and for the new word.
\<close>

definition GainEntry_run :: "nat \<Rightarrow> string \<Rightarrow> nat \<Rightarrow> nat \<Rightarrow> world \<Rightarrow> world \<times> (py_error + int)" where
  "GainEntry_run tenant voice_command r1 r2 w =
     (case GainEntry_response (Tenant_password (heap w ! tenant)) voice_command r1 of
        Inl e \<Rightarrow> (w, Inl e)
      | Inr (passed, response) \<Rightarrow>
          (case Tenant_name (heap w ! tenant) of
             Inl e \<Rightarrow> (w, Inl e)
           | Inr (PStr name) \<Rightarrow>
               (let response = replace response token name;
                    w1 = w\<lparr>trace := trace w @ [Said response]\<rparr>
                in if passed then
                     (case new_word tenant r2 w1 of
                        (w2, Inl e) \<Rightarrow> (w2, Inl e)
                      | (w2, Inr _) \<Rightarrow> (w2, Inr 1))
                   else (w1, Inr 1))
           | Inr _ \<Rightarrow> (w, Inl TypeError)))"

text \<open>
  \<^verbatim>\<open>GainEntry.__init__\<close>, given the tenants mapping of the store: the handler keeps a
  view of the tenant registered as Bryan.
\<close>

definition GainEntry_init :: "(string \<times> nat) list \<Rightarrow> py_error + nat" where
  "GainEntry_init tenants_map =
     (case map_of tenants_map ''Bryan'' of None \<Rightarrow> Inl KeyError | Some a \<Rightarrow> Inr a)"

text \<open>A small building: one unit, one tenant, a word list of two lines.\<close>

definition example_document :: document where
  "example_document =
     \<lparr>doc_units = [(''453A'', [(''synonyms'', PList [PStr ''453A'']), (''floor'', PInt 4)])],
      doc_tenants = [(''Bryan'', [(''synonyms'', PList [PStr ''bryan'']),
                                  (''unit'', PStr ''453A''),
                                  (''phone_no'', PStr ''+15550100''),
                                  (''password'', PStr ''sesame'')])]\<rparr>"

definition example_world :: world where
  "example_world = Entities_init example_document [''alpha'' @ [CHR 0x0A], ''beta'' @ [CHR 0x0A]]"

text \<open>The password that a reader of the document finds for the tenant with identifier \<open>k\<close>.\<close>

definition stored_password :: "document \<Rightarrow> string \<Rightarrow> pyval option" where
  "stored_password file k = map_option Tenant_password (map_of (doc_tenants file) k)"

text \<open>What \<^verbatim>\<open>GainEntry.run\<close> can say on a match and on a mismatch, for a password and a
  tenant name.\<close>

definition success_phrases :: "string \<Rightarrow> string \<Rightarrow> string list" where
  "success_phrases pw name =
     map (\<lambda>c. replace (''that is the correct password: '' @ pw @ ''. '' @ c) token name)
       pass_responses"

definition failure_phrases :: "string \<Rightarrow> string list" where
  "failure_phrases name =
     map (\<lambda>c. replace (''i didn't recognize the password. '' @ c) token name) fail_responses"

text \<open>The password appears in the utterance when letter case is ignored on both sides.\<close>

definition appears_ignoring_case :: "string \<Rightarrow> string \<Rightarrow> bool" where
  "appears_ignoring_case pw utterance = py_in (lower pw) (lower utterance)"

text \<open>The example building with another stored password for Bryan.\<close>

definition world_with_password :: "string \<Rightarrow> world" where
  "world_with_password pw =
     Entities_init
       \<lparr>doc_units = [],
        doc_tenants = [(''Bryan'', [(''synonyms'', PList [PStr ''bryan'']),
                                    (''password'', PStr pw)])]\<rparr>
       [''alpha'' @ [CHR 0x0A]]"

section \<open>Keyword dispatcher\<close>

text \<open>
  Modelled from the spec: the dispatcher (the \<^verbatim>\<open>Actor\<close> class of module \<^verbatim>\<open>actionbase\<close>,
  which \<^verbatim>\<open>make_actor\<close> instantiates) is not among the sources. The spec gives a
  registry entry as a list of keyword phrases with a handler, registration as appending
  in order, and \<^verbatim>\<open>handle\<close> as a scan in registration order that runs the handler of
  the first entry one of whose phrases is a case-insensitive substring of the utterance,
  and runs nothing when no entry matches. The result lists the calls
  \<^verbatim>\<open>handler.run(utterance)\<close> made.
\<close>

type_synonym 'h registry = "(string list \<times> 'h) list"

definition add_keyword :: "string list \<Rightarrow> 'h \<Rightarrow> 'h registry \<Rightarrow> 'h registry" where
  "add_keyword phrases handler reg = reg @ [(phrases, handler)]"

definition entry_matches :: "string list \<Rightarrow> string \<Rightarrow> bool" where
  "entry_matches phrases utterance =
     list_ex (\<lambda>p. py_in (lower p) (lower utterance)) phrases"

fun handle :: "'h registry \<Rightarrow> string \<Rightarrow> ('h \<times> string) list" where
  "handle [] utterance = []"
| "handle ((phrases, handler) # reg) utterance =
     (if entry_matches phrases utterance then [(handler, utterance)]
      else handle reg utterance)"

text \<open>A registry of three entries, registered in this order, with handlers named by numbers.\<close>

definition example_registry :: "nat registry" where
  "example_registry =
     add_keyword [''password'', ''forgot'', ''help''] 3
       (add_keyword [''let me in'', ''open up''] 2
         (add_keyword [''Bryan'', ''brian''] 1 []))"

section \<open>PageUnit.say_unit\<close>

definition is_alpha :: "char \<Rightarrow> bool" where
  "is_alpha c = (c \<in> set ''abcdefghijklmnopqrstuvwxyzABCDEFGHIJKLMNOPQRSTUVWXYZ'')"

text \<open>
  \<^verbatim>\<open>re.findall(r'\d+', s)\<close>: the maximal runs of digits, from the left (below code
  point 256 the pattern matches the digits 0..9 only, and \<^verbatim>\<open>[a-z]\<close> under \<^verbatim>\<open>re.I\<close> the
  52 letters only).
  The first argument holds the run being read, reversed.
\<close>

fun digit_runs :: "string \<Rightarrow> string \<Rightarrow> string list" where
  "digit_runs acc [] = (if acc = [] then [] else [rev acc])"
| "digit_runs acc (c # cs) =
     (if is_digit c then digit_runs (c # acc) cs
      else (if acc = [] then [] else [rev acc]) @ digit_runs [] cs)"

definition findall_digits :: "string \<Rightarrow> string list" where
  "findall_digits s = digit_runs [] s"

text \<open>
  \<^verbatim>\<open>re.match(r"([0-9]+)([a-z]+)", s, re.I)\<close>: at the start of the string, a run of
  digits followed by a run of letters, both greedy and not empty. No shorter digit run
  can match instead, since what follows it is a digit. The result is the two groups.
\<close>

definition match_digits_letters :: "string \<Rightarrow> (string \<times> string) option" where
  "match_digits_letters s =
     (let n = takeWhile is_digit s;
          suf = takeWhile is_alpha (dropWhile is_digit s)
      in if n \<noteq> [] \<and> suf \<noteq> [] then Some (n, suf) else None)"

text \<open>
  True division of integers, \<^verbatim>\<open>a / b\<close>, followed by \<^verbatim>\<open>int()\<close>. Python returns the
  double nearest to the exact quotient, ties to the even significand, and raises
  \<^verbatim>\<open>OverflowError\<close> when that is no finite double; \<^verbatim>\<open>int()\<close> truncates it. For
  \<open>a > 0\<close> the binary exponent \<open>e\<close> of the quotient has
  \<open>2 ^ e \<le> a / b < 2 ^ (e + 1)\<close>, and the significand is the quotient scaled by
  \<open>2 ^ (52 - e)\<close> and rounded to an integer. The divisor is positive and the quotient
  stays above the subnormal range, as with the divisor 100 of \<^verbatim>\<open>say_unit\<close>.
\<close>

fun bit_length :: "nat \<Rightarrow> nat" where
  "bit_length n = (if n = 0 then 0 else Suc (bit_length (n div 2)))"

declare bit_length.simps [simp del]

definition round_half_even :: "nat \<Rightarrow> nat \<Rightarrow> nat" where
  "round_half_even n d =
     (let q = n div d; r = n mod d
      in if 2 * r < d then q
         else if 2 * r > d then q + 1
         else if even q then q else q + 1)"

definition quotient_ge_pow2 :: "nat \<Rightarrow> nat \<Rightarrow> int \<Rightarrow> bool" where
  "quotient_ge_pow2 a b e =
     (if 0 \<le> e then b * 2 ^ nat e \<le> a else b \<le> a * 2 ^ nat (- e))"

definition float_exponent :: "nat \<Rightarrow> nat \<Rightarrow> int" where
  "float_exponent a b =
     (let e = int (bit_length a) - int (bit_length b)
      in if quotient_ge_pow2 a b e then e else e - 1)"

definition int_truediv :: "nat \<Rightarrow> nat \<Rightarrow> py_error + nat" where
  "int_truediv a b =
     (if a = 0 then Inr 0
      else
        (let s = 52 - float_exponent a b
         in if 0 \<le> s then Inr (round_half_even (a * 2 ^ nat s) b div 2 ^ nat s)
            else
              (let x = round_half_even a (b * 2 ^ nat (- s)) * 2 ^ nat (- s)
               in if 2 ^ 1024 \<le> x then Inl OverflowError else Inr x)))"

text \<open>
  The body of the \<^verbatim>\<open>try\<close> block of \<^verbatim>\<open>PageUnit.say_unit\<close>. A digit run always
  converts with \<^verbatim>\<open>int\<close>; where a Python version limits the length of the numeral and
  raises \<^verbatim>\<open>ValueError\<close>, the division would overflow, and either way the handler
  returns the address.
\<close>

definition say_unit_body :: "string \<Rightarrow> py_error + string" where
  "say_unit_body unit =
     (case subscript (findall_digits unit) 0 of
        Inl e \<Rightarrow> Inl e
      | Inr digits \<Rightarrow>
          (let val = digits_value digits;
               suf = (case match_digits_letters unit of
                        Some (n, suf) \<Rightarrow> suf
                      | None \<Rightarrow> '''')
           in case int_truediv val 100 of
                Inl e \<Rightarrow> Inl e
              | Inr hun \<Rightarrow>
                  (let rem = int val - int hun * 100
                   in Inr (str_int (int hun) @ '' '' @ str_int rem @ '' '' @ suf))))"

text \<open>\<^verbatim>\<open>PageUnit.say_unit\<close>: every exception of the body gives the address back.\<close>

definition say_unit :: "string \<Rightarrow> string" where
  "say_unit unit = (case say_unit_body unit of Inl e \<Rightarrow> unit | Inr ret \<Rightarrow> ret)"

text \<open>
  The parts of an address that \<^verbatim>\<open>say_unit\<close> reads: the first run of digits, wherever it
  starts, and the letters that directly follow a run of digits at the very start.
\<close>

definition first_digit_run :: "string \<Rightarrow> string" where
  "first_digit_run s = takeWhile is_digit (dropWhile (\<lambda>c. \<not> is_digit c) s)"

definition letters_after_leading_digits :: "string \<Rightarrow> string" where
  "letters_after_leading_digits s =
     (if takeWhile is_digit s = [] then [] else takeWhile is_alpha (dropWhile is_digit s))"

text \<open>
  The parts the specification names: the digit run the address starts with, and the
  alphabetic suffix it ends with; and the pronunciation built from them, with the raw
  address when there is no leading number.
\<close>

definition leading_digit_run :: "string \<Rightarrow> string" where
  "leading_digit_run s = takeWhile is_digit s"

definition trailing_alphabetic_suffix :: "string \<Rightarrow> string" where
  "trailing_alphabetic_suffix s = rev (takeWhile is_alpha (rev s))"

definition say_unit_spec :: "string \<Rightarrow> string" where
  "say_unit_spec unit =
     (if leading_digit_run unit = [] then unit
      else
        (let val = digits_value (leading_digit_run unit)
         in str_nat (val div 100) @ '' '' @ str_nat (val mod 100) @ '' ''
              @ trailing_alphabetic_suffix unit))"

section \<open>Properties of SpeakTime\<close>

lemma subscript_in_range:
  "0 \<le> i \<Longrightarrow> i < int (length xs) \<Longrightarrow> subscript xs i = Inr (xs ! nat i)"
  by (simp add: subscript_def)

text \<open>On a valid time of day neither table read fails, and the result is the phrase.\<close>

lemma to_str_general:
  assumes "0 \<le> h" "h < 24" "0 \<le> m" "m < 60"
  shows "to_str \<lparr>dt_hour = h, dt_minute = m\<rparr> = Inr (clock_phrase h m)"
proof -
  define r where "r = (m + 2) div 5"
  define inv where "inv = (r > 6)"
  define r' where "r' = (if inv then 12 - r else r)"
  define h' where "h' = (if inv then (h + 1) mod 24 else h)"
  define h12 where "h12 = (if h' > 12 then h' - 12 else h')"
  have r: "0 \<le> r" "r \<le> 12" using assms by (simp_all add: r_def)
  have r': "0 \<le> r'" "r' \<le> 6" using r by (auto simp: r'_def inv_def)
  have h': "0 \<le> h'" "h' < 24" using assms by (auto simp: h'_def)
  have h12: "0 \<le> h12" "h12 < int (length HRS_TEXT)"
    using h' by (auto simp: h12_def HRS_TEXT_def)
  have hw: "subscript HRS_TEXT h12 = Inr (HRS_TEXT ! nat h12)"
    using h12 by (rule subscript_in_range)
  have mw: "r' \<noteq> 0 \<Longrightarrow> subscript MINS_TEXT (r' - 1) = Inr (MINS_TEXT ! nat (r' - 1))"
    using r' by (intro subscript_in_range) (auto simp: MINS_TEXT_def)
  have "to_str \<lparr>dt_hour = h, dt_minute = m\<rparr> =
        (if r' = 0 then
           (if h12 = 0 then Inr ''It is midnight.''
            else case subscript HRS_TEXT h12 of
                   Inl e \<Rightarrow> Inl e
                 | Inr hw \<Rightarrow> Inr (''It is '' @ hw @ '' o'clock.''))
         else
           (case subscript MINS_TEXT (r' - 1) of
              Inl e \<Rightarrow> Inl e
            | Inr mw \<Rightarrow>
               (case subscript HRS_TEXT h12 of
                  Inl e \<Rightarrow> Inl e
                | Inr hw \<Rightarrow>
                    if inv then Inr (''It is '' @ mw @ '' to '' @ hw @ ''.'')
                    else Inr (''It is '' @ mw @ '' past '' @ hw @ ''.''))))"
    unfolding to_str_def Let_def r_def inv_def r'_def h'_def h12_def datetime.select_convs ..
  also have "\<dots> = Inr (clock_phrase h m)"
    unfolding clock_phrase_def Let_def
    using hw mw
    unfolding r_def [symmetric] inv_def [symmetric] r'_def [symmetric] h'_def [symmetric]
      h12_def [symmetric]
    by simp
  finally show ?thesis .
qed

text \<open>
  Claim C5. For every hour in 0..23 and minute in 0..59, \<^verbatim>\<open>SpeakTime.to_str\<close> returns
  the clock phrase: the increment \<open>(minute + 2) div 5\<close>, replaced by 12 minus itself
  above 6 with the hour advanced modulo 24, hours above 12 reduced by 12, "It is midnight."
  or "It is <hour-word> o'clock." on increment 0, and "It is <minute-word> past/to
  <hour-word>." otherwise. In particular 4:00 gives "It is four o'clock.", 0:00 gives
  "It is midnight." and 16:47 gives "It is quarter to five.".
\<close>

theorem to_str_clock_phrase:
  "(0 \<le> h \<and> h < 24 \<and> 0 \<le> m \<and> m < 60 \<longrightarrow>
      to_str \<lparr>dt_hour = h, dt_minute = m\<rparr> = Inr (clock_phrase h m))
   \<and> to_str \<lparr>dt_hour = 4, dt_minute = 0\<rparr> = Inr ''It is four o'clock.''
   \<and> to_str \<lparr>dt_hour = 0, dt_minute = 0\<rparr> = Inr ''It is midnight.''
   \<and> to_str \<lparr>dt_hour = 16, dt_minute = 47\<rparr> = Inr ''It is quarter to five.''"
proof -
  have "to_str \<lparr>dt_hour = 4, dt_minute = 0\<rparr> = Inr ''It is four o'clock.''"
    by (simp add: to_str_def subscript_def HRS_TEXT_def)
  moreover have "to_str \<lparr>dt_hour = 0, dt_minute = 0\<rparr> = Inr ''It is midnight.''"
    by (simp add: to_str_def)
  moreover have "to_str \<lparr>dt_hour = 16, dt_minute = 47\<rparr> = Inr ''It is quarter to five.''"
    by (simp add: to_str_def subscript_def HRS_TEXT_def MINS_TEXT_def)
  ultimately show ?thesis
    using to_str_general [of h m] by blast
qed

theorem to_str_clock_phrase_witness:
  "(0::int) \<le> 9 \<and> (9::int) < 24 \<and> (0::int) \<le> 23 \<and> (23::int) < 60
   \<and> to_str \<lparr>dt_hour = 9, dt_minute = 23\<rparr> = Inr (clock_phrase 9 23)
   \<and> clock_phrase 9 23 = ''It is twenty-five past nine.''"
proof -
  have "clock_phrase 9 23 = ''It is twenty-five past nine.''"
    by (simp add: clock_phrase_def HRS_TEXT_def MINS_TEXT_def)
  then show ?thesis using to_str_clock_phrase [of 9 23] by simp
qed

text \<open>
  Claim C6 as stated (minute 58 gives the "to" phrasing) fails: at 4:58 the increment 12
  is inverted to 0, so the o'clock branch answers, and its sentence is no "to" sentence.
\<close>

theorem to_str_minute_58_not_to:
  "to_str \<lparr>dt_hour = 4, dt_minute = 58\<rparr> = Inr ''It is five o'clock.''
   \<and> ''It is five o'clock.'' \<notin> set to_phrasing"
  by (simp add: to_str_def subscript_def HRS_TEXT_def MINS_TEXT_def to_phrasing_def)

lemma on_the_hour_not_to: "h \<in> set [0..23] \<Longrightarrow> on_the_hour h \<notin> set to_phrasing"
  by (simp add: upto.simps on_the_hour_def to_phrasing_def HRS_TEXT_def MINS_TEXT_def)

text \<open>
  Claim C6, amended. For every hour in 0..23, \<^verbatim>\<open>to_str\<close> at minute 58 rounds to the next
  hour (wrapping at 24) and says that full hour: "It is <next-hour-word> o'clock.", or
  "It is midnight." at 23:58; the sentence is never of the "to" form.
\<close>

theorem to_str_minute_58:
  assumes "0 \<le> h" "h < 24"
  shows "to_str \<lparr>dt_hour = h, dt_minute = 58\<rparr> = Inr (on_the_hour ((h + 1) mod 24))
         \<and> on_the_hour ((h + 1) mod 24) \<notin> set to_phrasing"
proof
  have "to_str \<lparr>dt_hour = h, dt_minute = 58\<rparr> = Inr (clock_phrase h 58)"
    using assms by (intro to_str_general) simp_all
  also have "clock_phrase h 58 = on_the_hour ((h + 1) mod 24)"
    by (simp add: clock_phrase_def on_the_hour_def)
  finally show "to_str \<lparr>dt_hour = h, dt_minute = 58\<rparr> = Inr (on_the_hour ((h + 1) mod 24))" .
  have "(h + 1) mod 24 \<in> set [0..23]" by simp
  then show "on_the_hour ((h + 1) mod 24) \<notin> set to_phrasing"
    by (rule on_the_hour_not_to)
qed

theorem to_str_minute_58_witness:
  "(0::int) \<le> 23 \<and> (23::int) < 24
   \<and> to_str \<lparr>dt_hour = 23, dt_minute = 58\<rparr> = Inr ''It is midnight.''
   \<and> ''It is midnight.'' \<notin> set to_phrasing"
  using to_str_minute_58 [of 23] by (simp add: on_the_hour_def)

section \<open>Properties of VolumeControl\<close>

lemma format_set_volume: "format_d SET_VOLUME v = ''amixer -q set Master '' @ str_int v @ ''%''"
  by (simp add: SET_VOLUME_def)

lemma format_volume_at:
  "format_d (gettext ''Volume at %d %%.'') v = ''Volume at '' @ str_int v @ '' %.''"
  by (simp add: gettext_def)

lemma VolumeControl_run_ok:
  assumes "check_output env GET_VOLUME = Inr out" "py_int (strip out) = Inr v"
  shows "VolumeControl_run d env = (volume_ok_trace (strip out) (max 0 (min 100 (v + d))), None)"
  using assms
  by (simp add: VolumeControl_run_def volume_try_body_def Let_def format_set_volume
      format_volume_at volume_ok_trace_def)

lemma py_int_50: "py_int (strip ''50'') = Inr 50"
  by (simp add: py_int_def strip_def bytes_space_def is_digit_def digits_value_def digit_val_def)

lemma py_int_95: "py_int (strip ''95'') = Inr 95"
  by (simp add: py_int_def strip_def bytes_space_def is_digit_def digits_value_def digit_val_def)

lemma str_int_60: "str_int 60 = ''60''"
  by (simp add: str_int_def str_nat.simps)

lemma str_int_100: "str_int 100 = ''100''"
  by (simp add: str_int_def str_nat.simps)

text \<open>
  Claim C7. Whenever the volume query succeeds and its output parses to \<open>v\<close>, a run with
  change \<open>d\<close> issues the set command for \<open>max 0 (min 100 (v + d))\<close> and then says
  "Volume at <new volume> %."; nothing is raised. Volume 50 with change +10 sets 60 and
  says "Volume at 60 %."; volume 95 with change +10 sets 100.
\<close>

theorem VolumeControl_run_clamps:
  "(check_output env GET_VOLUME = Inr out \<and> py_int (strip out) = Inr v \<longrightarrow>
      VolumeControl_run d env = (volume_ok_trace (strip out) (max 0 (min 100 (v + d))), None))
   \<and> VolumeControl_run 10 (shell_answers (Inr ''50'')) =
        ([Shell GET_VOLUME, LogInfo ''volume: %s'' ''50'',
          Shell ''amixer -q set Master 60%'', Said ''Volume at 60 %.''], None)
   \<and> VolumeControl_run 10 (shell_answers (Inr ''95'')) =
        ([Shell GET_VOLUME, LogInfo ''volume: %s'' ''95'',
          Shell ''amixer -q set Master 100%'', Said ''Volume at 100 %.''], None)"
proof (intro conjI impI)
  assume "check_output env GET_VOLUME = Inr out \<and> py_int (strip out) = Inr v"
  then show "VolumeControl_run d env
      = (volume_ok_trace (strip out) (max 0 (min 100 (v + d))), None)"
    by (simp add: VolumeControl_run_ok)
next
  have "strip ''50'' = ''50''" by (simp add: strip_def bytes_space_def)
  then show "VolumeControl_run 10 (shell_answers (Inr ''50'')) =
        ([Shell GET_VOLUME, LogInfo ''volume: %s'' ''50'',
          Shell ''amixer -q set Master 60%'', Said ''Volume at 60 %.''], None)"
    using VolumeControl_run_ok [of "shell_answers (Inr ''50'')" "''50''" 50 10]
      py_int_50 str_int_60
    by (simp add: shell_answers_def volume_ok_trace_def)
next
  have "strip ''95'' = ''95''" by (simp add: strip_def bytes_space_def)
  then show "VolumeControl_run 10 (shell_answers (Inr ''95'')) =
        ([Shell GET_VOLUME, LogInfo ''volume: %s'' ''95'',
          Shell ''amixer -q set Master 100%'', Said ''Volume at 100 %.''], None)"
    using VolumeControl_run_ok [of "shell_answers (Inr ''95'')" "''95''" 95 10]
      py_int_95 str_int_100
    by (simp add: shell_answers_def volume_ok_trace_def)
qed

theorem VolumeControl_run_clamps_witness:
  "check_output (shell_answers (Inr ''7'')) GET_VOLUME = Inr ''7''
   \<and> py_int (strip ''7'') = Inr 7
   \<and> VolumeControl_run (- 10) (shell_answers (Inr ''7'')) =
        ([Shell GET_VOLUME, LogInfo ''volume: %s'' ''7'',
          Shell ''amixer -q set Master 0%'', Said ''Volume at 0 %.''], None)"
proof -
  have a: "check_output (shell_answers (Inr ''7'')) GET_VOLUME = Inr ''7''"
    by (simp add: shell_answers_def)
  have b: "py_int (strip ''7'') = Inr 7"
    by (simp add: py_int_def strip_def bytes_space_def is_digit_def digits_value_def
        digit_val_def)
  have c: "strip ''7'' = ''7''" by (simp add: strip_def bytes_space_def)
  have d: "str_int 0 = ''0''" by (simp add: str_int_def str_nat.simps)
  show ?thesis
    using VolumeControl_run_clamps [of "shell_answers (Inr ''7'')" "''7''" 7 "- 10"] a b c d
    by (simp add: volume_ok_trace_def)
qed

text \<open>A volume that does not parse is absorbed: an apology is said, the error logged.\<close>

lemma VolumeControl_run_parse_failure:
  assumes "check_output env GET_VOLUME = Inr out" "py_int (strip out) = Inl ValueError"
  shows "VolumeControl_run d env =
     ([Shell GET_VOLUME, LogInfo ''volume: %s'' (strip out), Said ''Sorry, I couldn't do that'',
       LogException ''Error using amixer to adjust volume.''], None)"
  using assms
  by (simp add: VolumeControl_run_def volume_try_body_def Let_def gettext_def)

text \<open>
  Claim C4 fails on the code. The handler names \<^verbatim>\<open>CalledProcessError\<close>, yet the one call
  that can raise it, the volume query, stands before the \<^verbatim>\<open>try\<close>: when the query command
  fails, nothing is said or logged and the exception reaches the caller.
\<close>

theorem VolumeControl_run_query_failure_propagates:
  "VolumeControl_run 10 (shell_answers (Inl CalledProcessError))
     = ([Shell GET_VOLUME], Some CalledProcessError)"
  by (simp add: VolumeControl_run_def shell_answers_def)

section \<open>Properties of paging exceptions\<close>

text \<open>
  Claim C10. For every entity record with a paging_exception sub-record that carries a
  message, \<^verbatim>\<open>PagingException.message\<close> returns a list: the field itself when it is a
  list, and the one-element list of the field when it is not. \<^verbatim>\<open>PageUnit\<close> and
  \<^verbatim>\<open>PageTenant\<close> take exactly that list as their response templates.
\<close>

theorem PagingException_message_list:
  assumes "map_of entity ''paging_exception'' = Some pe"
      and "getitem pe ''message'' = Inr msg"
  shows "\<exists>templates.
           PagingException_message pe = Inr templates
         \<and> PageUnit_init entity = Inr templates
         \<and> PageTenant_init entity = Inr templates
         \<and> (\<forall>xs. msg = PList xs \<longrightarrow> templates = xs)
         \<and> ((\<forall>xs. msg \<noteq> PList xs) \<longrightarrow> templates = [msg])"
  using assms
  by (cases msg)
     (simp_all add: PagingException_message_def PageUnit_init_def PageTenant_init_def
        Entity_paging_exception_def)

theorem PagingException_message_list_witness:
  "map_of example_unit ''paging_exception''
      = Some (PDict [(''message'', PStr ''unit $unit is vacant'')])
   \<and> getitem (PDict [(''message'', PStr ''unit $unit is vacant'')]) ''message''
        = Inr (PStr ''unit $unit is vacant'')
   \<and> PagingException_message (PDict [(''message'', PStr ''unit $unit is vacant'')])
        = Inr [PStr ''unit $unit is vacant'']
   \<and> PageUnit_init example_unit = Inr [PStr ''unit $unit is vacant'']"
proof -
  have a: "map_of example_unit ''paging_exception''
             = Some (PDict [(''message'', PStr ''unit $unit is vacant'')])"
    by (simp add: example_unit_def)
  have b: "getitem (PDict [(''message'', PStr ''unit $unit is vacant'')]) ''message''
             = Inr (PStr ''unit $unit is vacant'')"
    by (simp add: getitem_def)
  from PagingException_message_list [OF a b] a b show ?thesis by auto
qed

section \<open>Properties of the tenant password\<close>

text \<open>An absent, empty or null password reads as the sentinel, which is not empty.\<close>

lemma Tenant_password_default:
  assumes "map_of data ''password'' = None \<or> map_of data ''password'' = Some (PStr '''')
           \<or> map_of data ''password'' = Some PNone"
  shows "Tenant_password data = PStr default_password \<and> default_password \<noteq> ''''"
  using assms by (auto simp: Tenant_password_def truthy_def default_password_def)

lemma Tenant_password_truthy: "truthy (Tenant_password data)"
  by (auto simp: Tenant_password_def truthy_def default_password_def split: option.splits)

lemma map_of_dump_records:
  "map_of m k = Some a \<Longrightarrow> map_of (dump_records h m) k = Some (h ! a)"
  by (induction m) (auto simp: dump_records_def)

lemma data_file_import_data [simp]: "data_file (import_data w) = data_file w"
  by (simp add: import_data_def Let_def split: prod.splits)

text \<open>
  An assignment through a view whose dictionary the store still holds is written to the
  document, and the store read back holds it.
\<close>

lemma Tenant_set_password_attached:
  assumes ge: "global_entities w = Some ge"
      and k: "map_of (tenants ge) k = Some self"
      and a: "self < length (heap w)"
      and v: "truthy v"
  shows "\<exists>w'. Tenant_set_password self v w = (w', None)
             \<and> stored_password (data_file w') k = Some v
             \<and> Tenant_password (heap w' ! self) = v"
proof -
  let ?d = "AList.update ''password'' v (heap w ! self)"
  have pw: "Tenant_password ?d = v"
    using v by (simp add: Tenant_password_def AList.update_conv')
  show ?thesis
  using ge a pw map_of_dump_records [OF k, of "(heap w)[self := ?d]"]
  by (simp add: Tenant_set_password_def Let_def synch_data_def serialize_data_def
        stored_password_def import_data_def load_records_def nth_append split: prod.splits)
qed

lemma map_of_zip_upt:
  "map_of recs k = Some d \<Longrightarrow>
     \<exists>i<length recs. map_of (zip (map fst recs) [n ..< n + length recs]) k = Some (n + i)
                      \<and> snd (recs ! i) = d"
proof (induction recs arbitrary: n)
  case Nil
  then show ?case by simp
next
  case (Cons r recs)
  have upt: "[n ..< n + length (r # recs)] = n # [Suc n ..< Suc n + length recs]"
    by (simp add: upt_rec)
  show ?case
  proof (cases "fst r = k")
    case True
    with Cons.prems have "snd r = d" by (cases r) simp
    with True show ?thesis unfolding upt by (intro exI [of _ 0]) simp
  next
    case False
    with Cons.prems have "map_of recs k = Some d" by (cases r) simp
    from Cons.IH [OF this, of "Suc n"] obtain i where
      "i < length recs" "map_of (zip (map fst recs) [Suc n ..< Suc n + length recs]) k = Some (Suc n + i)"
      "snd (recs ! i) = d" by blast
    with False show ?thesis unfolding upt by (intro exI [of _ "Suc i"]) simp
  qed
qed

lemma map_of_load_records:
  assumes "map_of recs k = Some d"
  shows "\<exists>a. map_of (fst (load_records recs h)) k = Some a
            \<and> a < length (snd (load_records recs h))
            \<and> snd (load_records recs h) ! a = d"
proof -
  from map_of_zip_upt [OF assms, of "length h"] obtain i where
    "i < length recs" "map_of (zip (map fst recs) [length h ..< length h + length recs]) k
        = Some (length h + i)" "snd (recs ! i) = d" by blast
  then show ?thesis by (simp add: load_records_def nth_append)
qed

lemma import_data_tenant:
  assumes "map_of (doc_tenants (data_file w)) k = Some d"
  shows "\<exists>ge a. global_entities (import_data w) = Some ge \<and> map_of (tenants ge) k = Some a
               \<and> heap (import_data w) ! a = d"
proof -
  obtain us h1 where u: "load_records (doc_units (data_file w)) (heap w) = (us, h1)"
    by (cases "load_records (doc_units (data_file w)) (heap w)")
  from map_of_load_records [OF assms, of h1] obtain a where
    "map_of (fst (load_records (doc_tenants (data_file w)) h1)) k = Some a"
    "snd (load_records (doc_tenants (data_file w)) h1) ! a = d" by blast
  then show ?thesis
    by (cases "load_records (doc_tenants (data_file w)) h1") (auto simp: import_data_def u)
qed

lemma Tenant_set_password_reloadable:
  assumes ge: "global_entities w = Some ge"
      and k: "map_of (tenants ge) k = Some self"
      and a: "self < length (heap w)"
      and v: "truthy v"
  shows "\<exists>w' ge' a'. Tenant_set_password self v w = (w', None)
             \<and> stored_password (data_file w') k = Some v
             \<and> global_entities w' = Some ge' \<and> map_of (tenants ge') k = Some a'
             \<and> Tenant_password (heap w' ! a') = v"
proof -
  let ?d = "AList.update ''password'' v (heap w ! self)"
  let ?w1 = "w\<lparr>heap := (heap w)[self := ?d]\<rparr>"
  let ?w2 = "serialize_data ge ?w1"
  have pw: "Tenant_password ?d = v"
    using v by (simp add: Tenant_password_def AList.update_conv')
  have doc: "map_of (doc_tenants (data_file ?w2)) k = Some ?d"
    using a map_of_dump_records [OF k, of "(heap w)[self := ?d]"]
    by (simp add: serialize_data_def Let_def)
  from import_data_tenant [OF doc] obtain ge' a' where
    "global_entities (import_data ?w2) = Some ge'" "map_of (tenants ge') k = Some a'"
    "heap (import_data ?w2) ! a' = ?d" by blast
  moreover have "Tenant_set_password self v w = (import_data ?w2, None)"
    using ge by (simp add: Tenant_set_password_def Let_def synch_data_def)
  moreover have "stored_password (data_file (import_data ?w2)) k = Some v"
    using doc pw by (simp add: stored_password_def)
  ultimately show ?thesis using pw by simp
qed

text \<open>
  Claim C3 fails on the code. Reading the document after \<^verbatim>\<open>synch_data\<close> builds new
  dictionaries, so a view created before keeps a dictionary the store no longer holds.
  The first assignment through the view of Bryan is written to the document; the second
  assignment through the same view changes only the orphaned dictionary, and the
  document read back still gives the first password.
\<close>

theorem Tenant_set_password_twice_not_persisted:
  "map_option (\<lambda>ge. GainEntry_init (tenants ge)) (global_entities example_world)
      = Some (Inr 1)
   \<and> (case Tenant_set_password 1 (PStr ''alpha'') example_world of
        (w1, e1) \<Rightarrow>
          (case Tenant_set_password 1 (PStr ''beta'') w1 of
             (w2, e2) \<Rightarrow>
               e1 = None \<and> e2 = None
             \<and> stored_password (data_file w1) ''Bryan'' = Some (PStr ''alpha'')
             \<and> Tenant_password (heap w2 ! 1) = PStr ''beta''
             \<and> stored_password (data_file w2) ''Bryan'' = Some (PStr ''alpha'')))"
  by (simp add: example_world_def example_document_def Entities_init_def import_data_def
      load_records_def GainEntry_init_def Tenant_set_password_def synch_data_def
      serialize_data_def dump_records_def stored_password_def Tenant_password_def truthy_def
      Let_def)

section \<open>Properties of GainEntry\<close>

lemma py_in_sublist: "py_in p s = sublist p s"
  by (induction s) (simp_all add: sublist_Cons_right)

lemma replace_from_untouched:
  assumes "\<And>i. i < length A \<Longrightarrow> \<not> prefix old (drop i (A @ B))"
  shows "replace_from old new 0 (A @ B) = A @ replace_from old new 0 B"
  using assms
proof (induction A)
  case Nil
  then show ?case by simp
next
  case (Cons a A)
  have "\<not> prefix old (a # A @ B)" using Cons.prems [of 0] by simp
  moreover have "replace_from old new 0 (A @ B) = A @ replace_from old new 0 B"
  proof (rule Cons.IH)
    fix i assume "i < length A"
    then show "\<not> prefix old (drop i (A @ B))" using Cons.prems [of "Suc i"] by simp
  qed
  ultimately show ?case by simp
qed

lemma prefix_drop_sublist:
  assumes "prefix t (drop j s)" shows "sublist t s"
proof -
  from assms obtain r where "drop j s = t @ r" by (auto simp: prefix_def)
  then have "s = take j s @ t @ r" by (metis append_take_drop_id)
  then show ?thesis unfolding sublist_def by blast
qed

lemma prefix_drop_hd:
  assumes "i < length P" "prefix t (drop i (P @ R))" "t \<noteq> []"
  shows "hd t \<in> set P"
proof -
  from assms(1) have "drop i (P @ R) = (P ! i) # (drop (Suc i) P @ R)"
    by (simp add: Cons_nth_drop_Suc)
  with assms(2,3) have "hd t = P ! i" by (cases t) simp_all
  with assms(1) show ?thesis by simp
qed

lemma token_not_started:
  assumes P: "CHR ''$'' \<notin> set P"
      and no: "\<not> py_in token pw"
      and i: "i < length (P @ pw)"
  shows "\<not> prefix token (drop i ((P @ pw) @ ''. '' @ c))"
proof
  assume pre: "prefix token (drop i ((P @ pw) @ ''. '' @ c))"
  show False
  proof (cases "i < length P")
    case True
    from pre have "prefix token (drop i (P @ (pw @ ''. '' @ c)))" by simp
    from prefix_drop_hd [OF True this] have "hd token \<in> set P" by (simp add: token_def)
    with P show False by (simp add: token_def)
  next
    case False
    define j where "j = i - length P"
    have j: "j < length pw" using i False by (simp add: j_def)
    have "drop i ((P @ pw) @ ''. '' @ c) = drop j pw @ ''. '' @ c"
      using False j by (simp add: j_def)
    with pre have pre': "prefix token (drop j pw @ ''. '' @ c)" by simp
    have inside: "\<not> prefix token (drop j pw)"
    proof
      assume "prefix token (drop j pw)"
      then have "sublist token pw" by (rule prefix_drop_sublist)
      with no show False by (simp add: py_in_sublist)
    qed
    with pre' obtain us where us: "token = drop j pw @ us" "prefix us (''. '' @ c)"
      by (auto simp: prefix_append)
    with inside have "us \<noteq> []" by auto
    with us(2) have "hd us = CHR ''.''" by (cases us) auto
    with \<open>us \<noteq> []\<close> have "CHR ''.'' \<in> set us" by (cases us) auto
    then have "CHR ''.'' \<in> set token" by (subst us(1)) simp
    then show False by (simp add: token_def)
  qed
qed

lemma replace_keeps_password:
  assumes "\<not> py_in token pw"
  shows "replace (''that is the correct password: '' @ pw @ ''. '' @ c) token name
           = ''that is the correct password: '' @ pw @ replace (''. '' @ c) token name"
proof -
  have "replace_from token name 0 ((''that is the correct password: '' @ pw) @ ''. '' @ c)
          = (''that is the correct password: '' @ pw) @ replace_from token name 0 (''. '' @ c)"
  proof (rule replace_from_untouched)
    fix i assume "i < length (''that is the correct password: '' @ pw)"
    with assms show "\<not> prefix token
        (drop i ((''that is the correct password: '' @ pw) @ ''. '' @ c))"
      by (intro token_not_started) simp_all
  qed
  then show ?thesis by (simp add: replace_def token_def)
qed

lemma choice_pass_responses: "choice pass_responses r = Inr (pass_responses ! (r mod 3))"
  by (simp add: choice_def pass_responses_def)

lemma choice_fail_responses: "choice fail_responses r = Inr (fail_responses ! (r mod 4))"
  by (simp add: choice_def fail_responses_def)

lemma trace_import_data [simp]: "trace (import_data w) = trace w @ [ReadFile]"
  by (simp add: import_data_def Let_def split: prod.splits)

lemma new_word_ok:
  assumes "global_entities w = Some ge" "word_list w \<noteq> []"
  shows "\<exists>w' v file to body.
           new_word t r w = (w', Inr v)
         \<and> trace w' = trace w @ [WroteFile file, ReadFile, Texted to body]"
  using assms
  by (simp add: new_word_def choice_def Tenant_set_password_def Let_def synch_data_def
      serialize_data_def)

lemma GainEntry_run_passed:
  assumes "Tenant_password (heap w ! t) = PStr pw"
      and "Tenant_name (heap w ! t) = Inr (PStr name)"
      and "global_entities w = Some ge"
      and "word_list w \<noteq> []"
      and "py_in pw (lower u)"
  shows "\<exists>w' file to body.
           GainEntry_run t u r1 r2 w = (w', Inr 1)
         \<and> trace w' = trace w @
              [Said (replace (''that is the correct password: '' @ pw @ ''. ''
                                @ pass_responses ! (r1 mod 3)) token name),
               WroteFile file, ReadFile, Texted to body]"
proof -
  let ?s = "replace (''that is the correct password: '' @ pw @ ''. ''
                       @ pass_responses ! (r1 mod 3)) token name"
  let ?w1 = "w\<lparr>trace := trace w @ [Said ?s]\<rparr>"
  have "global_entities ?w1 = Some ge" "word_list ?w1 \<noteq> []"
    using assms by simp_all
  from new_word_ok [OF this, of t r2] obtain w' v doc dest body where
    nw: "new_word t r2 ?w1 = (w', Inr v)"
        "trace w' = trace ?w1 @ [WroteFile doc, ReadFile, Texted dest body]" by blast
  have "GainEntry_run t u r1 r2 w = (w', Inr 1)"
    using assms nw(1)
    by (simp add: GainEntry_run_def GainEntry_response_def choice_pass_responses Let_def)
  with nw(2) show ?thesis by simp
qed

lemma GainEntry_run_failed:
  assumes "Tenant_password (heap w ! t) = PStr pw"
      and "Tenant_name (heap w ! t) = Inr (PStr name)"
      and "\<not> py_in pw (lower u)"
  shows "GainEntry_run t u r1 r2 w =
           (w\<lparr>trace := trace w @
                 [Said (replace (''i didn't recognize the password. ''
                                   @ fail_responses ! (r1 mod 4)) token name)]\<rparr>, Inr 1)"
  using assms
  by (simp add: GainEntry_run_def GainEntry_response_def choice_fail_responses Let_def)

lemma success_phrase_mem:
  "replace (''that is the correct password: '' @ pw @ ''. '' @ pass_responses ! (r mod 3))
      token name \<in> set (success_phrases pw name)"
proof -
  have "pass_responses ! (r mod 3) \<in> set pass_responses"
    by (intro nth_mem) (simp add: pass_responses_def)
  then show ?thesis unfolding success_phrases_def by (simp add: image_iff) blast
qed

lemma failure_phrase_mem:
  "replace (''i didn't recognize the password. '' @ fail_responses ! (r mod 4)) token name
      \<in> set (failure_phrases name)"
proof -
  have "fail_responses ! (r mod 4) \<in> set fail_responses"
    by (intro nth_mem) (simp add: fail_responses_def)
  then show ?thesis unfolding failure_phrases_def by (simp add: image_iff) blast
qed

lemma heap_import_data_old:
  "a < length (heap w) \<Longrightarrow> heap (import_data w) ! a = heap w ! a"
  by (simp add: import_data_def load_records_def nth_append)

lemma new_word_rotates:
  assumes "global_entities w = Some ge" "word_list w \<noteq> []" "t < length (heap w)"
  shows "map_of (heap (fst (new_word t r w)) ! t) ''password''
           = Some (PStr (rstrip (word_list w ! (r mod length (word_list w)))))"
  using assms
  by (simp add: new_word_def choice_def Tenant_set_password_def Let_def synch_data_def
      serialize_data_def heap_import_data_old AList.update_conv')

lemma GainEntry_run_rotates:
  assumes "Tenant_password (heap w ! t) = PStr pw"
      and "Tenant_name (heap w ! t) = Inr (PStr name)"
      and "global_entities w = Some ge"
      and "word_list w \<noteq> []"
      and "py_in pw (lower u)"
      and "t < length (heap w)"
  shows "map_of (heap (fst (GainEntry_run t u r1 r2 w)) ! t) ''password''
           = Some (PStr (rstrip (word_list w ! (r2 mod length (word_list w)))))"
proof -
  let ?s = "replace (''that is the correct password: '' @ pw @ ''. ''
                       @ pass_responses ! (r1 mod 3)) token name"
  let ?w1 = "w\<lparr>trace := trace w @ [Said ?s]\<rparr>"
  have "fst (GainEntry_run t u r1 r2 w) = fst (new_word t r2 ?w1)"
    using assms(1,2,5)
    by (simp add: GainEntry_run_def GainEntry_response_def choice_pass_responses Let_def
        split: prod.splits sum.splits)
  moreover have "map_of (heap (fst (new_word t r2 ?w1)) ! t) ''password''
           = Some (PStr (rstrip (word_list ?w1 ! (r2 mod length (word_list ?w1)))))"
    using assms(3,4,6) by (intro new_word_rotates) simp_all
  ultimately show ?thesis by simp
qed

lemma example_world_facts:
  "Tenant_password (heap example_world ! 1) = PStr ''sesame''"
  "Tenant_name (heap example_world ! 1) = Inr (PStr ''bryan'')"
  "global_entities example_world = Some \<lparr>units = [(''453A'', 0)], tenants = [(''Bryan'', 1)]\<rparr>"
  "word_list example_world \<noteq> []"
  "trace example_world = [ReadFile]"
  by (simp_all add: example_world_def example_document_def Entities_init_def import_data_def
      load_records_def Tenant_password_def Tenant_name_def getitem_def first_item_def
      truthy_def)

lemma example_world_heap: "1 < length (heap example_world)"
  by (simp add: example_world_def example_document_def Entities_init_def import_data_def
      load_records_def)

lemma example_world_word:
  "rstrip (word_list example_world ! (0 mod length (word_list example_world))) = ''alpha''"
  by (simp add: example_world_def Entities_init_def import_data_def load_records_def
      example_document_def rstrip_def str_space_def)

lemma sesame_heard: "py_in ''sesame'' (lower ''Open Sesame please'')"
  by (simp add: lower_def lower_char_def char_of_def bit_Suc_0_iff)

text \<open>
  What \<^verbatim>\<open>GainEntry.run\<close> does, for a tenant whose password and name read as strings and
  for every utterance: when its test holds (the stored password, taken as it is, occurs
  in the lower-cased utterance) it says a success phrase and then rotates the password;
  otherwise it says a failure phrase and changes nothing else. The rotation (new word
  stored, document written and read back, message sent) comes only after the response
  has been said.
\<close>

lemma GainEntry_run_checks_password:
  assumes "Tenant_password (heap w ! t) = PStr pw"
      and "Tenant_name (heap w ! t) = Inr (PStr name)"
      and "global_entities w = Some ge"
      and "word_list w \<noteq> []"
      and "t < length (heap w)"
  shows "(py_in pw (lower u) \<longrightarrow>
            (\<exists>w' s file to body.
               GainEntry_run t u r1 r2 w = (w', Inr 1)
             \<and> s \<in> set (success_phrases pw name)
             \<and> trace w' = trace w @ [Said s, WroteFile file, ReadFile, Texted to body]
             \<and> map_of (heap w' ! t) ''password''
                 = Some (PStr (rstrip (word_list w ! (r2 mod length (word_list w)))))))
       \<and> (\<not> py_in pw (lower u) \<longrightarrow>
            (\<exists>s. s \<in> set (failure_phrases name)
                \<and> GainEntry_run t u r1 r2 w = (w\<lparr>trace := trace w @ [Said s]\<rparr>, Inr 1)))"
proof (intro conjI impI)
  assume "py_in pw (lower u)"
  from GainEntry_run_passed [OF assms(1-4) this, of r1 r2] success_phrase_mem [of pw r1 name]
    GainEntry_run_rotates [OF assms(1-4) this assms(5), of r1 r2]
  show "\<exists>w' s file to body.
               GainEntry_run t u r1 r2 w = (w', Inr 1)
             \<and> s \<in> set (success_phrases pw name)
             \<and> trace w' = trace w @ [Said s, WroteFile file, ReadFile, Texted to body]
             \<and> map_of (heap w' ! t) ''password''
                 = Some (PStr (rstrip (word_list w ! (r2 mod length (word_list w)))))"
    by fastforce
next
  assume "\<not> py_in pw (lower u)"
  from GainEntry_run_failed [OF assms(1,2) this, of r1 r2] failure_phrase_mem [of r1 name]
  show "\<exists>s. s \<in> set (failure_phrases name)
                \<and> GainEntry_run t u r1 r2 w = (w\<lparr>trace := trace w @ [Said s]\<rparr>, Inr 1)"
    by blast
qed

lemma GainEntry_run_checks_password_example:
  "Tenant_password (heap example_world ! 1) = PStr ''sesame''
   \<and> Tenant_name (heap example_world ! 1) = Inr (PStr ''bryan'')
   \<and> global_entities example_world
        = Some \<lparr>units = [(''453A'', 0)], tenants = [(''Bryan'', 1)]\<rparr>
   \<and> word_list example_world \<noteq> []
   \<and> 1 < length (heap example_world)
   \<and> py_in ''sesame'' (lower ''Open Sesame please'')
   \<and> (\<exists>w' s file to body.
         GainEntry_run 1 ''Open Sesame please'' 0 0 example_world = (w', Inr 1)
       \<and> s \<in> set (success_phrases ''sesame'' ''bryan'')
       \<and> trace w' = [ReadFile, Said s, WroteFile file, ReadFile, Texted to body]
       \<and> map_of (heap w' ! 1) ''password'' = Some (PStr ''alpha''))"
  using GainEntry_run_checks_password
      [OF example_world_facts(1-4) example_world_heap, of "''Open Sesame please''" 0 0]
    example_world_facts sesame_heard example_world_heap example_world_word
  by auto

lemma world_with_password_facts:
  "heap (world_with_password pw) ! 0 = [(''synonyms'', PList [PStr ''bryan'']), (''password'', PStr pw)]"
  "global_entities (world_with_password pw) = Some \<lparr>units = [], tenants = [(''Bryan'', 0)]\<rparr>"
  "word_list (world_with_password pw) = [''alpha'' @ [CHR 0x0A]]"
  "trace (world_with_password pw) = [ReadFile]"
  by (simp_all add: world_with_password_def Entities_init_def import_data_def load_records_def)

text \<open>
  For a stored password without capitals the test is the case-insensitive one, and
  \<^verbatim>\<open>GainEntry.run\<close> does what the specification says: success phrase and rotation
  exactly when the password appears in the utterance with case ignored.
\<close>

lemma GainEntry_run_lower_case_password:
  assumes "Tenant_password (heap w ! t) = PStr pw"
      and "Tenant_name (heap w ! t) = Inr (PStr name)"
      and "global_entities w = Some ge"
      and "word_list w \<noteq> []"
      and "t < length (heap w)"
      and "lower pw = pw"
  shows "(appears_ignoring_case pw u \<longrightarrow>
            (\<exists>w' s file to body.
               GainEntry_run t u r1 r2 w = (w', Inr 1)
             \<and> s \<in> set (success_phrases pw name)
             \<and> trace w' = trace w @ [Said s, WroteFile file, ReadFile, Texted to body]
             \<and> map_of (heap w' ! t) ''password''
                 = Some (PStr (rstrip (word_list w ! (r2 mod length (word_list w)))))))
       \<and> (\<not> appears_ignoring_case pw u \<longrightarrow>
            (\<exists>s. s \<in> set (failure_phrases name)
                \<and> GainEntry_run t u r1 r2 w = (w\<lparr>trace := trace w @ [Said s]\<rparr>, Inr 1)))"
  using GainEntry_run_checks_password [OF assms(1-5), of u r1 r2] assms(6)
  by (simp add: appears_ignoring_case_def)

text \<open>
  A lower-cased utterance holds no capital letter, so a stored password with a capital
  is found in no utterance: the tenant whose stored password is "Sesame" is refused
  whatever is said.
\<close>

lemma of_char_lower_char:
  "of_char (lower_char c) =
     (if (65 \<le> (of_char c :: nat) \<and> (of_char c :: nat) \<le> 90)
          \<or> (192 \<le> (of_char c :: nat) \<and> (of_char c :: nat) \<le> 222 \<and> (of_char c :: nat) \<noteq> 215)
      then of_char c + 32 else (of_char c :: nat))"
  by (auto simp: lower_char_def Let_def)

lemma lower_has_no_capital_S: "CHR ''S'' \<notin> set (lower u)"
proof
  assume "CHR ''S'' \<in> set (lower u)"
  then obtain c where "lower_char c = CHR ''S''" by (auto simp: lower_def)
  then have "(of_char (lower_char c) :: nat) = 83" by simp
  then show False by (simp add: of_char_lower_char split: if_splits)
qed

lemma Sesame_never_heard: "\<not> py_in ''Sesame'' (lower u)"
proof
  assume "py_in ''Sesame'' (lower u)"
  then have "sublist ''Sesame'' (lower u)" by (simp add: py_in_sublist)
  then have "set ''Sesame'' \<subseteq> set (lower u)" by (rule set_mono_sublist)
  then have "CHR ''S'' \<in> set (lower u)" by simp
  with lower_has_no_capital_S show False by blast
qed

lemma GainEntry_run_Sesame_locked_out:
  "\<exists>s. s \<in> set (failure_phrases ''bryan'')
       \<and> GainEntry_run 0 u r1 r2 (world_with_password ''Sesame'')
           = ((world_with_password ''Sesame'')\<lparr>trace := [ReadFile, Said s]\<rparr>, Inr 1)"
proof -
  have pw: "Tenant_password (heap (world_with_password ''Sesame'') ! 0) = PStr ''Sesame''"
    by (simp add: world_with_password_facts Tenant_password_def truthy_def)
  have nm: "Tenant_name (heap (world_with_password ''Sesame'') ! 0) = Inr (PStr ''bryan'')"
    by (simp add: world_with_password_facts Tenant_name_def getitem_def first_item_def)
  let ?s = "replace (''i didn't recognize the password. '' @ fail_responses ! (r1 mod 4))
              token ''bryan''"
  have "GainEntry_run 0 u r1 r2 (world_with_password ''Sesame'')
          = ((world_with_password ''Sesame'')\<lparr>trace := [ReadFile, Said ?s]\<rparr>, Inr 1)"
    using GainEntry_run_failed [OF pw nm Sesame_never_heard, of u r1 r2]
    by (simp add: world_with_password_facts)
  moreover have "?s \<in> set (failure_phrases ''bryan'')"
    by (rule failure_phrase_mem)
  ultimately show ?thesis by blast
qed

text \<open>
  Claim C1 fails on the code. The claim has the password matched with case ignored, and
  the code lower-cases the utterance for it, but not the stored password: with the
  stored password "Sesame", the utterance "open Sesame" holds the password when case is
  ignored, yet \<^verbatim>\<open>GainEntry.run\<close> says the failure phrase and rotates nothing. No
  utterance lets this tenant in.
\<close>

theorem GainEntry_run_case_sensitive:
  "Tenant_password (heap (world_with_password ''Sesame'') ! 0) = PStr ''Sesame''
   \<and> appears_ignoring_case ''Sesame'' ''open Sesame''
   \<and> GainEntry_run 0 ''open Sesame'' 0 0 (world_with_password ''Sesame'')
        = ((world_with_password ''Sesame'')
             \<lparr>trace := [ReadFile,
                  Said ''i didn't recognize the password. sorry, i could not let you in'']\<rparr>,
           Inr 1)"
proof -
  have pw: "Tenant_password (heap (world_with_password ''Sesame'') ! 0) = PStr ''Sesame''"
    by (simp add: world_with_password_facts Tenant_password_def truthy_def)
  have nm: "Tenant_name (heap (world_with_password ''Sesame'') ! 0) = Inr (PStr ''bryan'')"
    by (simp add: world_with_password_facts Tenant_name_def getitem_def first_item_def)
  have a: "appears_ignoring_case ''Sesame'' ''open Sesame''"
    by (simp add: appears_ignoring_case_def lower_def lower_char_def char_of_def bit_Suc_0_iff)
  have b: "\<not> py_in ''Sesame'' (lower ''open Sesame'')"
    by (simp add: lower_def lower_char_def char_of_def bit_Suc_0_iff)
  have c: "replace (''i didn't recognize the password. '' @ fail_responses ! (0 mod 4)) token ''bryan''
             = ''i didn't recognize the password. sorry, i could not let you in''"
    by (simp add: fail_responses_def replace_def token_def)
  show ?thesis
    using GainEntry_run_failed [OF pw nm b, of 0 0] pw a c
    by (simp add: world_with_password_facts)
qed

text \<open>
  Claim C9 as stated fails for a password that contains the placeholder: the substitution
  of the tenant name runs over the whole response, the password included.
\<close>

theorem GainEntry_run_placeholder_password:
  "Tenant_password (heap (world_with_password ''$tenant'') ! 0) = PStr ''$tenant''
   \<and> py_in ''$tenant'' (lower ''my word is $tenant'')
   \<and> trace (fst (GainEntry_run 0 ''my word is $tenant'' 0 0 (world_with_password ''$tenant''))) ! 1
        = Said ''that is the correct password: bryan. hello, bryan, have a wonderful day''
   \<and> \<not> prefix (''that is the correct password: '' @ ''$tenant'')
          ''that is the correct password: bryan. hello, bryan, have a wonderful day''"
proof -
  let ?w = "world_with_password ''$tenant''"
  have pw: "Tenant_password (heap ?w ! 0) = PStr ''$tenant''"
    by (simp add: world_with_password_facts Tenant_password_def truthy_def)
  have nm: "Tenant_name (heap ?w ! 0) = Inr (PStr ''bryan'')"
    by (simp add: world_with_password_facts Tenant_name_def getitem_def first_item_def)
  have heard: "py_in ''$tenant'' (lower ''my word is $tenant'')"
    by (simp add: lower_def lower_char_def char_of_def bit_Suc_0_iff)
  have said: "replace (''that is the correct password: '' @ ''$tenant'' @ ''. ''
                        @ pass_responses ! (0 mod 3)) token ''bryan''
             = ''that is the correct password: bryan. hello, bryan, have a wonderful day''"
    by (simp add: pass_responses_def replace_def token_def)
  from GainEntry_run_passed [OF pw nm world_with_password_facts(2) _ heard, of 0 0]
  obtain w' doc dest body where
    "GainEntry_run 0 ''my word is $tenant'' 0 0 ?w = (w', Inr 1)"
    "trace w' = trace ?w @
       [Said (replace (''that is the correct password: '' @ ''$tenant'' @ ''. ''
                         @ pass_responses ! (0 mod 3)) token ''bryan''),
        WroteFile doc, ReadFile, Texted dest body]"
    by (auto simp: world_with_password_facts)
  then have "trace (fst (GainEntry_run 0 ''my word is $tenant'' 0 0 ?w)) ! 1
        = Said ''that is the correct password: bryan. hello, bryan, have a wonderful day''"
    using said by (simp add: world_with_password_facts)
  with pw heard show ?thesis by simp
qed

text \<open>
  Claim C9, amended. For every utterance in which the tenant's current password matches,
  and whenever that password does not contain the placeholder "$tenant", the response
  said by \<^verbatim>\<open>GainEntry.run\<close> begins with "that is the correct password: " followed by
  the password itself, and it is said before the rotation.
\<close>

theorem GainEntry_run_speaks_password:
  assumes "Tenant_password (heap w ! t) = PStr pw"
      and "Tenant_name (heap w ! t) = Inr (PStr name)"
      and "global_entities w = Some ge"
      and "word_list w \<noteq> []"
      and "py_in pw (lower u)"
      and "\<not> py_in token pw"
  shows "\<exists>w' s file to body.
           GainEntry_run t u r1 r2 w = (w', Inr 1)
         \<and> trace w' = trace w @ [Said s, WroteFile file, ReadFile, Texted to body]
         \<and> prefix (''that is the correct password: '' @ pw) s"
proof -
  let ?s = "replace (''that is the correct password: '' @ pw @ ''. ''
                       @ pass_responses ! (r1 mod 3)) token name"
  have "?s = ''that is the correct password: '' @ pw
               @ replace (''. '' @ pass_responses ! (r1 mod 3)) token name"
    using assms(6) by (rule replace_keeps_password)
  then have "prefix (''that is the correct password: '' @ pw) ?s"
    by (metis append.assoc prefixI)
  with GainEntry_run_passed [OF assms(1-5), of r1 r2] show ?thesis by blast
qed

lemma no_token_in_sesame: "\<not> py_in token ''sesame''"
  by (simp add: token_def)

theorem GainEntry_run_speaks_password_witness:
  "Tenant_password (heap example_world ! 1) = PStr ''sesame''
   \<and> Tenant_name (heap example_world ! 1) = Inr (PStr ''bryan'')
   \<and> global_entities example_world
        = Some \<lparr>units = [(''453A'', 0)], tenants = [(''Bryan'', 1)]\<rparr>
   \<and> word_list example_world \<noteq> []
   \<and> py_in ''sesame'' (lower ''Open Sesame please'')
   \<and> \<not> py_in token ''sesame''
   \<and> (\<exists>w' s file to body.
         GainEntry_run 1 ''Open Sesame please'' 1 0 example_world = (w', Inr 1)
       \<and> trace w' = [ReadFile, Said s, WroteFile file, ReadFile, Texted to body]
       \<and> prefix ''that is the correct password: sesame'' s)"
  using GainEntry_run_speaks_password [OF example_world_facts(1-4) sesame_heard no_token_in_sesame, of 1 0]
    example_world_facts sesame_heard no_token_in_sesame
  by simp

text \<open>
  The same loss through the handler: after two successful entries the second new
  password is the one the handler checks and the one sent, while the document still
  holds the first.
\<close>

lemma GainEntry_run_twice_not_persisted:
  "(case GainEntry_run 1 ''sesame'' 0 0 example_world of
      (w1, r1) \<Rightarrow>
        (case GainEntry_run 1 ''alpha'' 0 1 w1 of
           (w2, r2) \<Rightarrow>
             r1 = Inr 1 \<and> r2 = Inr 1
           \<and> stored_password (data_file w1) ''Bryan'' = Some (PStr ''alpha'')
           \<and> Tenant_password (heap w2 ! 1) = PStr ''beta''
           \<and> stored_password (data_file w2) ''Bryan'' = Some (PStr ''alpha'')))"
  by (simp add: example_world_def example_document_def Entities_init_def import_data_def
      load_records_def GainEntry_run_def GainEntry_response_def Tenant_name_def getitem_def
      first_item_def new_word_def choice_def pass_responses_def rstrip_def str_space_def
      Tenant_phone_no_def lower_def lower_char_def char_of_def bit_Suc_0_iff
      Tenant_set_password_def synch_data_def replace_def token_def
      serialize_data_def dump_records_def stored_password_def Tenant_password_def truthy_def
      Let_def)

section \<open>Properties of the keyword dispatcher\<close>

lemma handle_first_match:
  assumes "\<exists>i<length reg. entry_matches (fst (reg ! i)) u"
  shows "\<exists>i<length reg. entry_matches (fst (reg ! i)) u
            \<and> (\<forall>j<i. \<not> entry_matches (fst (reg ! j)) u)
            \<and> handle reg u = [(snd (reg ! i), u)]"
  using assms
proof (induction reg)
  case Nil
  then show ?case by simp
next
  case (Cons e reg)
  obtain phrases h where e: "e = (phrases, h)" by (cases e)
  show ?case
  proof (cases "entry_matches phrases u")
    case True
    then show ?thesis unfolding e by (intro exI [of _ 0]) simp
  next
    case False
    from Cons.prems obtain k where k: "k < length (e # reg)"
      "entry_matches (fst ((e # reg) ! k)) u" by blast
    with False e obtain k' where "k = Suc k'" by (cases k) auto
    with k have "\<exists>i<length reg. entry_matches (fst (reg ! i)) u" by auto
    from Cons.IH [OF this] obtain i where i: "i < length reg"
      "entry_matches (fst (reg ! i)) u" "\<forall>j<i. \<not> entry_matches (fst (reg ! j)) u"
      "handle reg u = [(snd (reg ! i), u)]" by blast
    have "\<forall>j<Suc i. \<not> entry_matches (fst ((e # reg) ! j)) u"
      using i(3) False e by (auto simp: nth_Cons split: nat.splits)
    with i False show ?thesis unfolding e by (intro exI [of _ "Suc i"]) simp
  qed
qed

lemma handle_no_match:
  assumes "\<forall>i<length reg. \<not> entry_matches (fst (reg ! i)) u"
  shows "handle reg u = []"
  using assms
proof (induction reg)
  case Nil
  then show ?case by simp
next
  case (Cons e reg)
  obtain phrases h where e: "e = (phrases, h)" by (cases e)
  from Cons.prems have "\<not> entry_matches phrases u" unfolding e by auto
  moreover from Cons.prems have "\<forall>i<length reg. \<not> entry_matches (fst (reg ! i)) u"
    by auto
  ultimately show ?case unfolding e using Cons.IH by simp
qed

text \<open>
  Claim C2. For every registry and every utterance that holds a registered phrase as a
  case-insensitive substring, \<^verbatim>\<open>handle\<close> makes exactly one call: \<^verbatim>\<open>run(utterance)\<close> on
  the handler of the entry registered first among the matching ones. When no registered
  phrase occurs in the utterance, no handler runs.
\<close>

theorem handle_runs_first_registered:
  "((\<exists>i<length reg. entry_matches (fst (reg ! i)) u) \<longrightarrow>
      (\<exists>i<length reg. entry_matches (fst (reg ! i)) u
          \<and> (\<forall>j<i. \<not> entry_matches (fst (reg ! j)) u)
          \<and> handle reg u = [(snd (reg ! i), u)]))
   \<and> ((\<forall>i<length reg. \<not> entry_matches (fst (reg ! i)) u) \<longrightarrow> handle reg u = [])"
  using handle_first_match [of reg u] handle_no_match [of reg u] by blast

lemma example_registry_eq:
  "example_registry =
     [([''Bryan'', ''brian''], 1), ([''let me in'', ''open up''], 2),
      ([''password'', ''forgot'', ''help''], 3)]"
  by (simp add: example_registry_def add_keyword_def)

lemma lower_examples:
  "lower ''Open Up, I forgot'' = ''open up, i forgot''"
  "lower ''good morning'' = ''good morning''"
  "lower ''Bryan'' = ''bryan''" "lower ''brian'' = ''brian''"
  "lower ''let me in'' = ''let me in''" "lower ''open up'' = ''open up''"
  "lower ''password'' = ''password''" "lower ''forgot'' = ''forgot''"
  "lower ''help'' = ''help''"
  by (simp_all add: lower_def lower_char_def char_of_def bit_Suc_0_iff)

theorem handle_runs_first_registered_witness:
  "entry_matches (fst (example_registry ! 1)) ''Open Up, I forgot''
   \<and> entry_matches (fst (example_registry ! 2)) ''Open Up, I forgot''
   \<and> \<not> entry_matches (fst (example_registry ! 0)) ''Open Up, I forgot''
   \<and> handle example_registry ''Open Up, I forgot'' = [(2, ''Open Up, I forgot'')]
   \<and> handle example_registry ''good morning'' = []"
proof -
  let ?u = "''Open Up, I forgot''"
  have m: "entry_matches (fst (example_registry ! 1)) ?u"
      "entry_matches (fst (example_registry ! 2)) ?u"
      "\<not> entry_matches (fst (example_registry ! 0)) ?u"
    by (simp_all add: example_registry_eq entry_matches_def lower_examples)
  have n: "\<forall>i<length example_registry. \<not> entry_matches (fst (example_registry ! i)) ''good morning''"
    by (simp add: example_registry_eq entry_matches_def lower_examples All_less_Suc)
  from m(1) have "\<exists>i<length example_registry. entry_matches (fst (example_registry ! i)) ?u"
    by (intro exI [of _ 1]) (simp add: example_registry_eq)
  with handle_runs_first_registered [of example_registry ?u] obtain i where
    i: "i < length example_registry" "entry_matches (fst (example_registry ! i)) ?u"
       "\<forall>j<i. \<not> entry_matches (fst (example_registry ! j)) ?u"
       "handle example_registry ?u = [(snd (example_registry ! i), ?u)]" by blast
  have "i = 1"
  proof -
    from i(1) have "i < 3" by (simp add: example_registry_eq)
    moreover have "i \<noteq> 0" using i(2) m(3) by (cases "i = 0") auto
    moreover from i(3) m(1) have "\<not> 1 < i" by auto
    ultimately show ?thesis by linarith
  qed
  with i(4) have "handle example_registry ?u = [(2, ?u)]" by (simp add: example_registry_eq)
  moreover from handle_runs_first_registered [of example_registry "''good morning''"] n
  have "handle example_registry ''good morning'' = []" by blast
  ultimately show ?thesis using m by simp
qed

section \<open>Properties of say_unit\<close>

lemma bit_length_less: "n < 2 ^ bit_length n"
proof (induction n rule: bit_length.induct)
  case (1 n)
  show ?case
  proof (cases "n = 0")
    case True
    then show ?thesis by (simp add: bit_length.simps)
  next
    case False
    with 1 have "n div 2 < 2 ^ bit_length (n div 2)" by simp
    then have "n < 2 * 2 ^ bit_length (n div 2)" by linarith
    with False show ?thesis by (subst bit_length.simps) simp
  qed
qed

lemma bit_length_le: "n < 2 ^ w \<Longrightarrow> bit_length n \<le> w"
proof (induction n arbitrary: w rule: bit_length.induct)
  case (1 n)
  show ?case
  proof (cases "n = 0")
    case True
    then show ?thesis by (simp add: bit_length.simps)
  next
    case False
    with "1.prems" obtain v where w: "w = Suc v" by (cases w) auto
    with "1.prems" have "n div 2 < 2 ^ v" by simp
    with 1 False have "bit_length (n div 2) \<le> v" by simp
    with False w show ?thesis by (subst bit_length.simps) simp
  qed
qed

lemma bit_length_100: "bit_length 100 = 7"
  by (simp add: bit_length.simps)

lemma round_half_even_bounds:
  "n div d \<le> round_half_even n d" "round_half_even n d \<le> n div d + 1"
  by (simp_all add: round_half_even_def Let_def)

text \<open>
  Scaled by a power of two above 100, the quotient by 100 rounded to an integer still
  lies between the floor of the quotient and the next integer, both scaled.
\<close>

lemma scaled_div_100:
  fixes a P :: nat
  assumes P: "100 < P"
  shows "a div 100 * P \<le> a * P div 100" "a * P div 100 + 1 < (a div 100 + 1) * P"
proof -
  define k r where "k = a div 100" and "r = a mod 100"
  have a: "a = 100 * k + r" and r: "r < 100" by (simp_all add: k_def r_def)
  have "a * P = 100 * (k * P) + r * P" by (simp add: a algebra_simps)
  then have q: "a * P div 100 = k * P + r * P div 100" by simp
  show "a div 100 * P \<le> a * P div 100" using q by (simp add: k_def)
  have "r * P \<le> 99 * P" using r by simp
  then have "r * P div 100 \<le> 99 * P div 100" by (rule div_le_mono)
  moreover have "99 * P div 100 + 1 < P" using P by linarith
  ultimately have "r * P div 100 + 1 < P" by linarith
  then show "a * P div 100 + 1 < (a div 100 + 1) * P"
    using q by (simp add: k_def algebra_simps)
qed

lemma int_truediv_100_exact:
  assumes "a < 2 ^ 51"
  shows "int_truediv a 100 = Inr (a div 100)"
proof (cases "a = 0")
  case True
  then show ?thesis by (simp add: int_truediv_def)
next
  case False
  define s where "s = 52 - float_exponent a 100"
  have "bit_length a \<le> 51" using assms by (rule bit_length_le)
  then have "float_exponent a 100 \<le> 44"
    by (simp add: float_exponent_def Let_def bit_length_100)
  then have s: "8 \<le> s" by (simp add: s_def)
  define P :: nat where "P = 2 ^ nat s"
  have "(2::nat) ^ 8 \<le> 2 ^ nat s" using s by (intro power_increasing) simp_all
  then have P: "100 < P" by (simp add: P_def)
  define m where "m = round_half_even (a * P) 100"
  have "a div 100 * P \<le> m"
    using scaled_div_100(1) [OF P, of a] round_half_even_bounds(1) [of "a * P" 100]
    by (simp add: m_def)
  moreover have "m < (a div 100 + 1) * P"
    using scaled_div_100(2) [OF P, of a] round_half_even_bounds(2) [of "a * P" 100]
    by (simp add: m_def)
  ultimately have "m div P = a div 100"
    by (intro div_nat_eqI) (simp_all add: mult.commute)
  then show ?thesis
    using False s by (simp add: int_truediv_def Let_def s_def [symmetric] P_def m_def)
qed

lemma digit_runs_open:
  "acc \<noteq> [] \<Longrightarrow>
     digit_runs acc s = (rev acc @ takeWhile is_digit s) # digit_runs [] (dropWhile is_digit s)"
  by (induction s arbitrary: acc) auto

lemma digit_runs_none: "\<forall>c\<in>set s. \<not> is_digit c \<Longrightarrow> digit_runs [] s = []"
  by (induction s) auto

lemma digit_runs_first:
  "\<exists>c\<in>set s. is_digit c \<Longrightarrow> \<exists>rest. digit_runs [] s = first_digit_run s # rest"
proof (induction s)
  case Nil
  then show ?case by simp
next
  case (Cons c s)
  show ?case
  proof (cases "is_digit c")
    case True
    then show ?thesis by (simp add: digit_runs_open first_digit_run_def)
  next
    case False
    with Cons show ?thesis by (auto simp: first_digit_run_def)
  qed
qed

lemma findall_digits_0:
  "subscript (findall_digits s) 0 =
     (if \<forall>c\<in>set s. \<not> is_digit c then Inl IndexError else Inr (first_digit_run s))"
proof (cases "\<forall>c\<in>set s. \<not> is_digit c")
  case True
  then show ?thesis by (simp add: findall_digits_def digit_runs_none subscript_def)
next
  case False
  then obtain rest where "digit_runs [] s = first_digit_run s # rest"
    using digit_runs_first [of s] by blast
  with False show ?thesis by (simp add: findall_digits_def subscript_def)
qed

lemma match_suffix:
  "(case match_digits_letters s of Some (n, suf) \<Rightarrow> suf | None \<Rightarrow> '''')
     = letters_after_leading_digits s"
  by (simp add: match_digits_letters_def letters_after_leading_digits_def Let_def)

lemma say_unit_no_digits:
  assumes "\<forall>c\<in>set unit. \<not> is_digit c"
  shows "say_unit unit = unit"
  using assms by (simp add: say_unit_def say_unit_body_def findall_digits_0)

lemma say_unit_number:
  assumes "\<exists>c\<in>set unit. is_digit c"
      and "digits_value (first_digit_run unit) < 2 ^ 51"
  shows "say_unit unit =
           str_nat (digits_value (first_digit_run unit) div 100) @ '' ''
             @ str_nat (digits_value (first_digit_run unit) mod 100) @ '' ''
             @ letters_after_leading_digits unit"
proof -
  let ?n = "digits_value (first_digit_run unit)"
  have sub: "subscript (findall_digits unit) 0 = Inr (first_digit_run unit)"
    using assms(1) by (simp add: findall_digits_0)
  have hun: "int_truediv ?n 100 = Inr (?n div 100)"
    using assms(2) by (rule int_truediv_100_exact)
  have rem: "int ?n - int (?n div 100) * 100 = int (?n mod 100)"
    by (simp add: zmod_int zdiv_int minus_div_mult_eq_mod)
  have "say_unit_body unit =
          Inr (str_int (int (?n div 100)) @ '' '' @ str_int (int (?n mod 100)) @ '' ''
                 @ letters_after_leading_digits unit)"
    unfolding say_unit_body_def sub Let_def match_suffix
    by (simp only: sum.case hun rem)
  then show ?thesis by (simp add: say_unit_def str_int_def)
qed

lemma digit_val_le: "is_digit c \<Longrightarrow> digit_val c \<le> 9"
  by (auto simp: is_digit_def digit_val_def)

lemma digits_value_snoc: "digits_value (xs @ [c]) = 10 * digits_value xs + digit_val c"
  by (simp add: digits_value_def)

lemma digits_value_less: "\<forall>c\<in>set xs. is_digit c \<Longrightarrow> digits_value xs < 10 ^ length xs"
proof (induction xs rule: rev_induct)
  case Nil
  then show ?case by (simp add: digits_value_def)
next
  case (snoc c xs)
  then have "digits_value xs < 10 ^ length xs" "digit_val c \<le> 9"
    by (simp_all add: digit_val_le)
  then show ?case by (simp add: digits_value_snoc)
qed

lemma first_digit_run_value:
  assumes "length (first_digit_run unit) \<le> 15"
  shows "digits_value (first_digit_run unit) < 2 ^ 51"
proof -
  have "\<forall>c\<in>set (first_digit_run unit). is_digit c"
    by (auto simp: first_digit_run_def dest: set_takeWhileD)
  then have "digits_value (first_digit_run unit) < 10 ^ length (first_digit_run unit)"
    by (rule digits_value_less)
  also have "(10::nat) ^ length (first_digit_run unit) \<le> 10 ^ 15"
    using assms by (intro power_increasing) simp_all
  also have "(10::nat) ^ 15 < 2 ^ 51" by simp
  finally show ?thesis .
qed

lemma say_unit_453A: "say_unit ''453A'' = ''4 53 A''"
proof -
  have "first_digit_run ''453A'' = ''453''" by (simp add: first_digit_run_def is_digit_def)
  moreover have "digits_value ''453'' = 453" by (simp add: digits_value_def digit_val_def)
  moreover have "letters_after_leading_digits ''453A'' = ''A''"
    by (simp add: letters_after_leading_digits_def is_digit_def is_alpha_def)
  moreover have "str_nat 4 = ''4''" "str_nat 53 = ''53''" by (simp_all add: str_nat.simps)
  moreover have "\<exists>c\<in>set ''453A''. is_digit c" by (simp add: is_digit_def)
  ultimately show ?thesis using say_unit_number [of "''453A''"] by simp
qed

lemma say_unit_12_34B: "say_unit ''12-34B'' = ''0 12 ''"
proof -
  have "first_digit_run ''12-34B'' = ''12''" by (simp add: first_digit_run_def is_digit_def)
  moreover have "digits_value ''12'' = 12" by (simp add: digits_value_def digit_val_def)
  moreover have "letters_after_leading_digits ''12-34B'' = ''''"
    by (simp add: letters_after_leading_digits_def is_digit_def is_alpha_def)
  moreover have "str_nat 0 = ''0''" "str_nat 12 = ''12''" by (simp_all add: str_nat.simps)
  moreover have "\<exists>c\<in>set ''12-34B''. is_digit c" by (simp add: is_digit_def)
  ultimately show ?thesis using say_unit_number [of "''12-34B''"] by simp
qed

lemma say_unit_A453: "say_unit ''A453'' = ''4 53 ''"
proof -
  have "first_digit_run ''A453'' = ''453''" by (simp add: first_digit_run_def is_digit_def)
  moreover have "digits_value ''453'' = 453" by (simp add: digits_value_def digit_val_def)
  moreover have "letters_after_leading_digits ''A453'' = ''''"
    by (simp add: letters_after_leading_digits_def is_digit_def is_alpha_def)
  moreover have "str_nat 4 = ''4''" "str_nat 53 = ''53''" by (simp_all add: str_nat.simps)
  moreover have "\<exists>c\<in>set ''A453''. is_digit c" by (simp add: is_digit_def)
  ultimately show ?thesis using say_unit_number [of "''A453''"] by simp
qed

text \<open>
  Claim C8 as stated fails. The number is the first digit run wherever it stands, and
  the suffix is the run of letters right after digits at the start: "12-34B" ends with
  the letter B and is pronounced without it, and "A453", which starts with no digit, is
  pronounced from the digits found later.
\<close>

theorem say_unit_not_leading_trailing:
  "say_unit ''12-34B'' = ''0 12 '' \<and> say_unit_spec ''12-34B'' = ''0 12 B''
   \<and> say_unit ''A453'' = ''4 53 '' \<and> say_unit_spec ''A453'' = ''A453''"
proof -
  have "say_unit_spec ''12-34B'' = ''0 12 B''"
    by (simp add: say_unit_spec_def leading_digit_run_def trailing_alphabetic_suffix_def
        is_digit_def is_alpha_def digits_value_def digit_val_def str_nat.simps)
  moreover have "say_unit_spec ''A453'' = ''A453''"
    by (simp add: say_unit_spec_def leading_digit_run_def is_digit_def)
  ultimately show ?thesis using say_unit_12_34B say_unit_A453 by simp
qed

text \<open>
  Claim C8, amended. \<^verbatim>\<open>say_unit\<close> takes the first digit run found anywhere in the
  address as the number and, as the suffix, the letters that directly follow a digit run
  at the very start of the address (none otherwise). For a number of up to 15 digits the
  result is "<number div 100> <number mod 100> <suffix>"; "453A" yields exactly
  "4 53 A"; an address with no digits raises inside the parse and is returned unchanged.
\<close>

theorem say_unit_pronounces:
  "((\<forall>c\<in>set unit. \<not> is_digit c) \<longrightarrow> say_unit unit = unit)
   \<and> ((\<exists>c\<in>set unit. is_digit c) \<and> length (first_digit_run unit) \<le> 15 \<longrightarrow>
        say_unit unit =
          str_nat (digits_value (first_digit_run unit) div 100) @ '' ''
            @ str_nat (digits_value (first_digit_run unit) mod 100) @ '' ''
            @ letters_after_leading_digits unit)
   \<and> say_unit ''453A'' = ''4 53 A''"
  using say_unit_no_digits [of unit] say_unit_number [of unit] first_digit_run_value [of unit]
    say_unit_453A
  by blast

theorem say_unit_pronounces_witness:
  "(\<forall>c\<in>set ''lobby''. \<not> is_digit c) = True
   \<and> say_unit ''lobby'' = ''lobby''
   \<and> (\<exists>c\<in>set ''1208b''. is_digit c) = True
   \<and> length (first_digit_run ''1208b'') = 4
   \<and> say_unit ''1208b'' = ''12 8 b''"
proof -
  have a: "\<forall>c\<in>set ''lobby''. \<not> is_digit c" by (simp add: is_digit_def)
  have b: "\<exists>c\<in>set ''1208b''. is_digit c" by (simp add: is_digit_def)
  have c: "first_digit_run ''1208b'' = ''1208''" by (simp add: first_digit_run_def is_digit_def)
  have d: "digits_value ''1208'' = 1208" by (simp add: digits_value_def digit_val_def)
  have e: "letters_after_leading_digits ''1208b'' = ''b''"
    by (simp add: letters_after_leading_digits_def is_digit_def is_alpha_def)
  have f: "str_nat 12 = ''12''" "str_nat 8 = ''8''" by (simp_all add: str_nat.simps)
  have len: "length (first_digit_run ''1208b'') \<le> 15" by (simp add: c)
  from say_unit_pronounces [of "''lobby''"] a have "say_unit ''lobby'' = ''lobby''" by blast
  moreover from say_unit_pronounces [of "''1208b''"] b len have "say_unit ''1208b'' =
          str_nat (digits_value (first_digit_run ''1208b'') div 100) @ '' ''
            @ str_nat (digits_value (first_digit_run ''1208b'') mod 100) @ '' ''
            @ letters_after_leading_digits ''1208b''" by blast
  ultimately show ?thesis using a b c d e f by simp
qed

text \<open>
  Beyond that range the division is a floating-point one: for seventeen nines the
  quotient rounds up to \<open>10 ^ 15\<close>, and the remainder printed is negative.
\<close>

lemma int_truediv_seventeen_nines: "int_truediv 99999999999999999 100 = Inr 1000000000000000"
proof -
  have "bit_length 99999999999999999 = 57" by (simp add: bit_length.simps)
  then have "float_exponent 99999999999999999 100 = 49"
    by (simp add: float_exponent_def bit_length_100 quotient_ge_pow2_def)
  then show ?thesis by (simp add: int_truediv_def round_half_even_def)
qed

lemma say_unit_float_rounding: "say_unit ''99999999999999999'' = ''1000000000000000 -1 ''"
proof -
  have "findall_digits ''99999999999999999'' = [''99999999999999999'']"
    by (simp add: findall_digits_def is_digit_def)
  moreover have "digits_value ''99999999999999999'' = 99999999999999999"
    by (simp add: digits_value_def digit_val_def)
  moreover have "match_digits_letters ''99999999999999999'' = None"
    by (simp add: match_digits_letters_def is_digit_def)
  moreover have "str_int 1000000000000000 = ''1000000000000000''" "str_int (- 1) = ''-1''"
    by (simp_all add: str_int_def str_nat.simps)
  ultimately show ?thesis
    by (simp add: say_unit_def say_unit_body_def subscript_def int_truediv_seventeen_nines)
qed

end
